theory Spec2Isabelle
  imports Main
begin

section \<open>Data model (route.ts, lines 9-18)\<close>

text \<open>
  \<^verbatim>\<open>interface Message { role: 'user' | 'assistant' | 'system'; content: string }\<close>
\<close>

datatype role = User | Assistant | System

record message =
  role :: role
  content :: string

text \<open>
  The messages of a request are JavaScript objects held by reference: the array
  \<^verbatim>\<open>body.messages\<close> is a list of references into a store of message objects, and
  \<^verbatim>\<open>streamAnthropicResponse\<close> receives that very array. An assignment to a field of one
  of the objects is an update of the store.
\<close>

type_synonym ref = nat
type_synonym heap = "ref \<Rightarrow> message"

record ChatRequest =
  messages :: "ref list"
  position :: string
  model :: string

section \<open>Engine commands (route.ts, lines 41-43)\<close>

text \<open>
  The decimal rendering of a non-negative whole number, as string concatenation renders
  the \<^verbatim>\<open>depth\<close> argument (the only caller uses the default, 20).
\<close>

fun string_of_nat :: "nat \<Rightarrow> string" where
  "string_of_nat n =
     (if n < 10 then [char_of (48 + n)]
      else string_of_nat (n div 10) @ [char_of (48 + n mod 10)])"

declare string_of_nat.simps [simp del]

text \<open>
  The two writes of \<^verbatim>\<open>getStockfishAnalysis\<close> to the engine's input stream, in order:
  \<^verbatim>\<open>'position fen ' + fen + '\n'\<close> and \<^verbatim>\<open>'go depth ' + depth + '\n'\<close>.
\<close>

definition engine_commands :: "string \<Rightarrow> nat \<Rightarrow> string list" where
  "engine_commands fen depth =
     [''position fen '' @ fen @ ''\<newline>'',
      ''go depth '' @ string_of_nat depth @ ''\<newline>'']"

section \<open>Prompt augmentation and the provider call (route.ts, lines 47-132)\<close>

text \<open>\<^verbatim>\<open>Array.prototype.findLast\<close>: the last element satisfying the predicate, if any.\<close>

definition findLast :: "('a \<Rightarrow> bool) \<Rightarrow> 'a list \<Rightarrow> 'a option" where
  "findLast p xs = List.find p (rev xs)"

text \<open>The template literal of line 56.\<close>

definition augmented_content :: "string \<Rightarrow> string \<Rightarrow> string \<Rightarrow> string" where
  "augmented_content pos stockfishAnalysis original =
     ''Chess position (FEN): '' @ pos @ ''\<newline>Stockfish analysis:\<newline>'' @ stockfishAnalysis
       @ ''\<newline>\<newline>User question: '' @ original"

text \<open>
  Lines 54-57: the last user message is looked up in the array and, when there is one,
  its \<^verbatim>\<open>content\<close> field is assigned in place.
\<close>

definition augment :: "ref list \<Rightarrow> string \<Rightarrow> string \<Rightarrow> heap \<Rightarrow> heap" where
  "augment msgs pos stockfishAnalysis h =
     (case findLast (\<lambda>m. role (h m) = User) msgs of
        None \<Rightarrow> h
      | Some lastUserMessage \<Rightarrow>
          h(lastUserMessage := (h lastUserMessage)
              \<lparr>content := augmented_content pos stockfishAnalysis (content (h lastUserMessage))\<rparr>))"

text \<open>Lines 60-65: system messages are filtered out, the remaining roles mapped.\<close>

definition anthropicMessages :: "ref list \<Rightarrow> heap \<Rightarrow> message list" where
  "anthropicMessages msgs h =
     map (\<lambda>m. \<lparr>role = (if role (h m) = Assistant then Assistant else User),
               content = content (h m)\<rparr>)
       (filter (\<lambda>m. role (h m) \<noteq> System) msgs)"

text \<open>
  The arguments of \<^verbatim>\<open>anthropic.messages.create\<close> (lines 69-74), together with the key the
  client was built with (lines 48-50).
\<close>

record create_params =
  cp_apiKey :: string
  cp_model :: string
  cp_max_tokens :: nat
  cp_messages :: "message list"
  cp_stream :: bool

text \<open>
  A response is either \<^verbatim>\<open>NextResponse.json({ error: msg }, { status })\<close> or the event
  stream built over the provider stream that was opened with the given arguments.
\<close>

datatype response = JsonResponse nat string | StreamResponse create_params

datatype effect = EngineWrite string | ProviderCreate create_params

text \<open>What awaiting a promise yields: its value, a rejection (with a message), or nothing ever.\<close>

datatype 'a settle = Resolved 'a | Rejected string | Pending

text \<open>
  What lies outside the repository is taken as a parameter: whether \<^verbatim>\<open>chess.load\<close> of
  chess.js accepts a position string, the key literal of line 154 (its text is not
  repeated here), the environment variable of line 158, what awaiting the engine analysis
  of a position yields, and whether the provider's \<^verbatim>\<open>create\<close> call throws (\<open>Some msg\<close>) or
  returns a stream (\<open>None\<close>).
\<close>

record env =
  chess_load :: "string \<Rightarrow> bool"
  hardcoded_key :: string
  GEMINI_API_KEY :: "string option"
  engine_reply :: "string \<Rightarrow> string settle"
  provider_create :: "create_params \<Rightarrow> string option"

text \<open>
  \<^verbatim>\<open>streamAnthropicResponse\<close>. The result is what the awaited call yields (\<open>None\<close> when
  it never returns, \<open>Inl\<close> a thrown error's message), the writes and calls made, and the
  store afterwards.
\<close>

definition streamAnthropicResponse ::
  "env \<Rightarrow> ref list \<Rightarrow> string \<Rightarrow> string \<Rightarrow> heap \<Rightarrow> (string + response) option \<times> effect list \<times> heap"
where
  "streamAnthropicResponse E msgs pos apiKey h =
     (let writes = map EngineWrite (engine_commands pos 20) in
      case engine_reply E pos of
        Pending \<Rightarrow> (None, writes, h)
      | Rejected e \<Rightarrow> (Some (Inl e), writes, h)
      | Resolved stockfishAnalysis \<Rightarrow>
          (let h' = augment msgs pos stockfishAnalysis h;
               params = \<lparr>cp_apiKey = apiKey, cp_model = ''claude-sonnet-4-20250514'',
                         cp_max_tokens = 4096, cp_messages = anthropicMessages msgs h',
                         cp_stream = True\<rparr>
           in case provider_create E params of
                Some msg \<Rightarrow>
                  (Some (Inl (''Anthropic API error: '' @ (if msg = [] then ''Unknown error'' else msg))),
                   writes @ [ProviderCreate params], h')
              | None \<Rightarrow> (Some (Inr (StreamResponse params)), writes @ [ProviderCreate params], h')))"

section \<open>The endpoint (route.ts, lines 134-188)\<close>

text \<open>Lines 150-159: the key for the selected model; the empty string when there is none.\<close>

definition apiKey_for :: "env \<Rightarrow> string \<Rightarrow> string" where
  "apiKey_for E m =
     (if m = ''claude-sonnet-4-20250514'' then hardcoded_key E
      else if m = ''gemini-2.5-pro''
        then (case GEMINI_API_KEY E of None \<Rightarrow> [] | Some k \<Rightarrow> k)
      else [])"

text \<open>
  \<^verbatim>\<open>POST\<close>. The request body is \<open>None\<close> when \<^verbatim>\<open>request.json()\<close> throws. The result is
  the response (if the handler returns), the engine writes and provider calls made, and
  the store afterwards. Whatever is thrown inside the handler becomes the 500 response
  of line 183.
\<close>

definition POST :: "env \<Rightarrow> ChatRequest option \<Rightarrow> heap \<Rightarrow> response option \<times> effect list \<times> heap" where
  "POST E request h =
     (case request of
        None \<Rightarrow> (Some (JsonResponse 500 ''Internal server error''), [], h)
      | Some body \<Rightarrow>
          if \<not> chess_load E (position body)
          then (Some (JsonResponse 400 ''Invalid chess position''), [], h)
          else
            (let apiKey = apiKey_for E (model body)
             in if apiKey = []
                then (Some (JsonResponse 400 ''API key not found for selected model''), [], h)
                else
                  (case streamAnthropicResponse E (messages body) (position body) apiKey h of
                     (None, fx, h') \<Rightarrow> (None, fx, h')
                   | (Some (Inl err), fx, h') \<Rightarrow>
                       (Some (JsonResponse 500 ''Internal server error''), fx, h')
                   | (Some (Inr resp), fx, h') \<Rightarrow> (Some resp, fx, h'))))"

section \<open>Engine session (route.ts, lines 6-45)\<close>

text \<open>\<^verbatim>\<open>String.prototype.startsWith\<close> and \<^verbatim>\<open>String.prototype.includes\<close>.\<close>

definition startsWith :: "string \<Rightarrow> string \<Rightarrow> bool" where
  "startsWith s p = (take (length p) s = p)"

fun includes_str :: "string \<Rightarrow> string \<Rightarrow> bool" where
  "includes_str [] sub = (sub = [])"
| "includes_str (c # cs) sub = (startsWith (c # cs) sub \<or> includes_str cs sub)"

text \<open>
  Every call of \<^verbatim>\<open>getStockfishAnalysis\<close> creates one closure: its \<^verbatim>\<open>analysis\<close> variable
  and its promise. The closure is registered as a listener on the one engine process and
  is never removed. A promise settles once: later \<^verbatim>\<open>resolve\<close> and \<^verbatim>\<open>reject\<close> calls do
  nothing.
\<close>

record listener =
  analysis :: string
  promise :: "string settle"

text \<open>
  The engine process of line 7, as the module sees it: everything written to its input
  stream, in order, and the listeners registered so far, in registration order.
\<close>

record engine =
  stdin :: "string list"
  listeners :: "listener list"

definition spawn :: engine where
  "spawn = \<lparr>stdin = [], listeners = []\<rparr>"

text \<open>Lines 24-31: the \<^verbatim>\<open>data\<close> listener of one call.\<close>

definition on_data :: "string \<Rightarrow> listener \<Rightarrow> listener" where
  "on_data output l =
     (let a = analysis l @ output
      in l\<lparr>analysis := a,
           promise := (if includes_str output ''bestmove'' \<and> promise l = Pending
                       then Resolved a else promise l)\<rparr>)"

text \<open>Lines 37-39: the \<^verbatim>\<open>error\<close> listener of one call.\<close>

definition on_error :: "string \<Rightarrow> listener \<Rightarrow> listener" where
  "on_error e l = l\<lparr>promise := (if promise l = Pending then Rejected e else promise l)\<rparr>"

text \<open>
  Lines 20-45: the synchronous part of a call (the promise executor): the listeners are
  registered, then the two commands are written.
\<close>

definition getStockfishAnalysis :: "string \<Rightarrow> nat \<Rightarrow> engine \<Rightarrow> engine" where
  "getStockfishAnalysis fen depth s =
     s\<lparr>listeners := listeners s @ [\<lparr>analysis = [], promise = Pending\<rparr>],
       stdin := stdin s @ engine_commands fen depth\<rparr>"

text \<open>
  What can happen on the single-threaded event loop: a call of the analysis operation, a
  chunk of engine output on stdout or stderr, or an \<^verbatim>\<open>error\<close> event of the process.
  Every registered listener sees every event of its kind, in registration order.
\<close>

datatype event = Call string nat | StdoutData string | StderrData string | ProcessError string

fun step :: "engine \<Rightarrow> event \<Rightarrow> engine" where
  "step s (Call fen depth) = getStockfishAnalysis fen depth s"
| "step s (StdoutData output) = s\<lparr>listeners := map (on_data output) (listeners s)\<rparr>"
| "step s (StderrData d) = s"
| "step s (ProcessError e) = s\<lparr>listeners := map (on_error e) (listeners s)\<rparr>"

definition run :: "event list \<Rightarrow> engine \<Rightarrow> engine" where
  "run evs s = foldl step s evs"

section \<open>JSON values as the code reads them\<close>

text \<open>
  The values \<^verbatim>\<open>JSON.parse\<close> returns. Of a number only its truthiness is read below (it
  is falsy exactly when it is 0), so whole numbers stand for the numbers. An object is
  its list of properties; \<^verbatim>\<open>JSON.parse\<close> yields each key once.
\<close>

datatype json =
    JNull
  | JBool bool
  | JNum int
  | JStr string
  | JArr "json list"
  | JObj "(string \<times> json) list"

datatype js_error = SyntaxError | TypeError | AbortError | Error json

text \<open>
  Reading a property of a value that is neither \<^verbatim>\<open>null\<close> nor \<^verbatim>\<open>undefined\<close>; \<open>None\<close> is
  \<^verbatim>\<open>undefined\<close>. The names read below (\<^verbatim>\<open>type\<close>, \<^verbatim>\<open>delta\<close>, \<^verbatim>\<open>text\<close>, \<^verbatim>\<open>error\<close>,
  \<^verbatim>\<open>message\<close>, \<^verbatim>\<open>choices\<close>, \<^verbatim>\<open>content\<close>) are properties of objects only.
\<close>

fun get_prop :: "json \<Rightarrow> string \<Rightarrow> json option" where
  "get_prop (JObj kvs) k = map_of kvs k"
| "get_prop _ k = None"

text \<open>Optional chaining \<^verbatim>\<open>v?.k\<close>.\<close>

definition opt_prop :: "json option \<Rightarrow> string \<Rightarrow> json option" where
  "opt_prop v k = (case v of None \<Rightarrow> None | Some JNull \<Rightarrow> None | Some d \<Rightarrow> get_prop d k)"

text \<open>Optional element access \<^verbatim>\<open>v?.[0]\<close>.\<close>

definition opt_index0 :: "json option \<Rightarrow> json option" where
  "opt_index0 v =
     (case v of
        Some (JArr (x # xs)) \<Rightarrow> Some x
      | Some (JObj kvs) \<Rightarrow> map_of kvs ''0''
      | Some (JStr (c # cs)) \<Rightarrow> Some (JStr [c])
      | _ \<Rightarrow> None)"

fun truthy :: "json option \<Rightarrow> bool" where
  "truthy None = False"
| "truthy (Some JNull) = False"
| "truthy (Some (JBool b)) = b"
| "truthy (Some (JNum n)) = (n \<noteq> 0)"
| "truthy (Some (JStr s)) = (s \<noteq> [])"
| "truthy (Some (JArr xs)) = True"
| "truthy (Some (JObj kvs)) = True"

section \<open>Stream transcoder (route.ts, lines 77-116)\<close>

text \<open>
  The readable side of the \<^verbatim>\<open>TransformStream\<close>: the chunks handed to it by
  \<^verbatim>\<open>controller.enqueue\<close>, in order, and its state. When the stream is errored the
  platform drops the chunks the client has not read yet, so the client receives a prefix
  of \<open>enqueued\<close>.
\<close>

datatype stream_state = Readable | Closed | Errored js_error

record controller =
  enqueued :: "string list"
  state :: stream_state

definition enqueue :: "string \<Rightarrow> controller \<Rightarrow> js_error + controller" where
  "enqueue x c =
     (if state c = Readable then Inr (c\<lparr>enqueued := enqueued c @ [x]\<rparr>) else Inl TypeError)"

definition controller_error :: "js_error \<Rightarrow> controller \<Rightarrow> controller" where
  "controller_error e c = (if state c = Readable then c\<lparr>state := Errored e\<rparr> else c)"

definition terminate :: "controller \<Rightarrow> controller" where
  "terminate c = (if state c = Readable then c\<lparr>state := Closed\<rparr> else c)"

text \<open>Lines 91-97, the object handed to \<^verbatim>\<open>JSON.stringify\<close>.\<close>

definition sseData :: "json \<Rightarrow> json" where
  "sseData t = JObj [(''choices'', JArr [JObj [(''delta'', JObj [(''content'', t)])]])]"

text \<open>Line 98: \<^verbatim>\<open>`data: ${JSON.stringify(sseData)}\n\n`\<close>, and the literal of line 113.\<close>

definition sseMessage :: "(json \<Rightarrow> string) \<Rightarrow> json \<Rightarrow> string" where
  "sseMessage stringify t = ''data: '' @ stringify (sseData t) @ ''\<newline>\<newline>''"

definition DONE :: string where
  "DONE = ''data: [DONE]\<newline>\<newline>''"

text \<open>
  \<^verbatim>\<open>transform(chunk, controller)\<close>, lines 81-109, on the decoded text of a chunk.
  \<^verbatim>\<open>JSON.parse\<close> (\<open>None\<close> when it throws) and \<^verbatim>\<open>JSON.stringify\<close> are parameters. Everything
  thrown inside the \<^verbatim>\<open>try\<close> block reaches the \<^verbatim>\<open>catch\<close> of line 105, which calls
  \<^verbatim>\<open>controller.error\<close>: the \<^verbatim>\<open>SyntaxError\<close> of \<^verbatim>\<open>JSON.parse\<close>, the \<^verbatim>\<open>TypeError\<close> of reading
  \<^verbatim>\<open>data.type\<close> of \<^verbatim>\<open>null\<close>, and the \<^verbatim>\<open>Error\<close> thrown at line 103.
\<close>

definition transform ::
  "(string \<Rightarrow> json option) \<Rightarrow> (json \<Rightarrow> string) \<Rightarrow> string \<Rightarrow> controller \<Rightarrow> controller"
where
  "transform parse stringify text c =
     (case parse text of
        None \<Rightarrow> controller_error SyntaxError c
      | Some data \<Rightarrow>
          if data = JNull then controller_error TypeError c
          else
            (let delta_text = opt_prop (get_prop data ''delta'') ''text'' in
             if get_prop data ''type'' = Some (JStr ''content_block_delta'') \<and> truthy delta_text
             then
               (case delta_text of
                  None \<Rightarrow> c
                | Some t \<Rightarrow>
                    (case enqueue (sseMessage stringify t) c of
                       Inl e \<Rightarrow> controller_error e c
                     | Inr c' \<Rightarrow> c'))
             else if get_prop data ''type'' = Some (JStr ''error'')
             then
               (let m = opt_prop (get_prop data ''error'') ''message'' in
                controller_error
                  (Error (case m of None \<Rightarrow> JStr ''Stream error''
                          | Some v \<Rightarrow> if truthy m then v else JStr ''Stream error'')) c)
             else c))"

text \<open>\<^verbatim>\<open>flush(controller)\<close>, lines 110-115.\<close>

definition flush :: "controller \<Rightarrow> controller" where
  "flush c = (case enqueue DONE c of Inl e \<Rightarrow> controller_error e c | Inr c' \<Rightarrow> terminate c')"

text \<open>
  The platform's \<^verbatim>\<open>pipeThrough\<close>: each chunk of the source is handed to \<^verbatim>\<open>transform\<close>
  while the transform stream is live; once it is errored or terminated, no further chunk
  is handed over and \<^verbatim>\<open>flush\<close> is not called. \<^verbatim>\<open>flush\<close> runs when the source closes; a
  source that fails errors the transform stream instead.
\<close>

datatype source_end = SourceClosed | SourceErrored js_error

fun pipeThrough ::
  "(string \<Rightarrow> controller \<Rightarrow> controller) \<Rightarrow> (controller \<Rightarrow> controller)
     \<Rightarrow> string list \<Rightarrow> source_end \<Rightarrow> controller \<Rightarrow> controller"
where
  "pipeThrough tr fl [] SourceClosed c = (if state c = Readable then fl c else c)"
| "pipeThrough tr fl [] (SourceErrored e) c = controller_error e c"
| "pipeThrough tr fl (x # xs) fin c =
     (if state c = Readable then pipeThrough tr fl xs fin (tr x c) else c)"

text \<open>Lines 80-119: the transform stream over the provider's chunks.\<close>

definition transformStream ::
  "(string \<Rightarrow> json option) \<Rightarrow> (json \<Rightarrow> string) \<Rightarrow> string list \<Rightarrow> source_end \<Rightarrow> controller"
where
  "transformStream parse stringify chunks fin =
     pipeThrough (transform parse stringify) flush chunks fin \<lparr>enqueued = [], state = Readable\<rparr>"

section \<open>Client stream consumer (AICoachChat component, \<^verbatim>\<open>handleSend\<close>)\<close>

text \<open>\<^verbatim>\<open>chunk.split('\n')\<close>.\<close>

fun split_lines :: "string \<Rightarrow> string list" where
  "split_lines [] = [[]]"
| "split_lines (c # cs) =
     (if c = CHR 0x0A then [] # split_lines cs
      else (case split_lines cs of [] \<Rightarrow> [[c]] | l # ls \<Rightarrow> (c # l) # ls))"

text \<open>
  \<^verbatim>\<open>line.trim() !== ''\<close> fails for a line of white space only (the white space among
  the code units below 256).
\<close>

definition is_space :: "char \<Rightarrow> bool" where
  "is_space c = (c \<in> set [CHR 0x09, CHR 0x0A, CHR 0x0B, CHR 0x0C, CHR 0x0D, CHR 0x20, CHR 0xA0])"

definition blank :: "string \<Rightarrow> bool" where
  "blank line = list_all is_space line"

text \<open>
  The state updater of lines 148-155. On an empty conversation \<^verbatim>\<open>lastMessage\<close> is
  \<^verbatim>\<open>undefined\<close> and reading its \<^verbatim>\<open>role\<close> throws.
\<close>

definition appendToLast :: "string \<Rightarrow> message list \<Rightarrow> js_error + message list" where
  "appendToLast txt prev =
     (case rev prev of
        [] \<Rightarrow> Inl TypeError
      | lastMessage # before \<Rightarrow>
          if role lastMessage = Assistant
          then Inr (rev before @ [lastMessage\<lparr>content := content lastMessage @ txt\<rparr>])
          else Inr prev)"

text \<open>
  \<^verbatim>\<open>lastMessage.content += content\<close>: a string is appended as it is, any other value
  through the platform's conversion to a string, a parameter.
\<close>

definition text_of :: "(json \<Rightarrow> string) \<Rightarrow> json \<Rightarrow> string" where
  "text_of toString v = (case v of JStr s \<Rightarrow> s | _ \<Rightarrow> toString v)"

text \<open>
  Lines 136-160, one line of a chunk. The result is \<open>None\<close> when the state updater throws
  (the component fails to render). A line that does not parse is logged and skipped
  (line 157), and so is \<^verbatim>\<open>null\<close>, whose \<^verbatim>\<open>choices\<close> cannot be read.
\<close>

definition processLine ::
  "(string \<Rightarrow> json option) \<Rightarrow> (json \<Rightarrow> string) \<Rightarrow> string \<Rightarrow> message list \<Rightarrow> message list option"
where
  "processLine parse toString line ms =
     (if startsWith line ''data: '' then
        (let data = drop 6 line in
         if data = ''[DONE]'' then Some ms
         else
           (case parse data of
              None \<Rightarrow> Some ms
            | Some parsed \<Rightarrow>
                if parsed = JNull then Some ms
                else
                  (let c = opt_prop (opt_prop (opt_index0 (get_prop parsed ''choices'')) ''delta'')
                             ''content''
                   in case c of
                        None \<Rightarrow> Some ms
                      | Some v \<Rightarrow>
                          if truthy c
                          then (case appendToLast (text_of toString v) ms of
                                  Inl e \<Rightarrow> None
                                | Inr ms' \<Rightarrow> Some ms')
                          else Some ms)))
      else Some ms)"

fun processLines ::
  "(string \<Rightarrow> json option) \<Rightarrow> (json \<Rightarrow> string) \<Rightarrow> string list \<Rightarrow> message list \<Rightarrow> message list option"
where
  "processLines parse toString [] ms = Some ms"
| "processLines parse toString (line # rest) ms =
     (case processLine parse toString line ms of
        None \<Rightarrow> None
      | Some ms' \<Rightarrow> processLines parse toString rest ms')"

text \<open>Lines 131-161: one chunk read from the body.\<close>

definition processChunk ::
  "(string \<Rightarrow> json option) \<Rightarrow> (json \<Rightarrow> string) \<Rightarrow> string \<Rightarrow> message list \<Rightarrow> message list option"
where
  "processChunk parse toString chunk ms =
     processLines parse toString (filter (\<lambda>line. \<not> blank line) (split_lines chunk)) ms"

text \<open>
  What one \<^verbatim>\<open>await reader.read()\<close> yields: a chunk, the end of the stream, or a rejection.
  Aborting the request's controller makes the pending read reject with \<^verbatim>\<open>AbortError\<close>.
\<close>

datatype read_result = ReadValue string | ReadDone | ReadRejected js_error

text \<open>
  How the \<^verbatim>\<open>try\<close> block ends: the loop is left at \<^verbatim>\<open>done\<close>, something is thrown, or a
  read stays pending (no further result arrives).
\<close>

datatype try_end = Completed | Threw js_error | Waiting

text \<open>
  The loop of lines 124-162 over the successive results of \<^verbatim>\<open>reader.read()\<close>. Results
  after the one that ends the loop are never looked at.
\<close>

fun readLoop ::
  "(string \<Rightarrow> json option) \<Rightarrow> (json \<Rightarrow> string) \<Rightarrow> read_result list \<Rightarrow> message list
     \<Rightarrow> (try_end \<times> message list) option"
where
  "readLoop parse toString [] ms = Some (Waiting, ms)"
| "readLoop parse toString (ReadDone # rest) ms = Some (Completed, ms)"
| "readLoop parse toString (ReadRejected e # rest) ms = Some (Threw e, ms)"
| "readLoop parse toString (ReadValue chunk # rest) ms =
     (case processChunk parse toString chunk ms of
        None \<Rightarrow> None
      | Some ms' \<Rightarrow> readLoop parse toString rest ms')"

text \<open>The component's state, as far as \<^verbatim>\<open>handleSend\<close> touches it.\<close>

record chat =
  chat_messages :: "message list"
  isLoading :: bool

definition fallback :: message where
  "fallback = \<lparr>role = Assistant, content = ''Sorry, I encountered an error. Please try again.''\<rparr>"

text \<open>Lines 163-176: the \<^verbatim>\<open>catch\<close> and \<^verbatim>\<open>finally\<close> clauses.\<close>

definition finish :: "try_end \<Rightarrow> message list \<Rightarrow> chat" where
  "finish r ms =
     (case r of
        Completed \<Rightarrow> \<lparr>chat_messages = ms, isLoading = False\<rparr>
      | Threw e \<Rightarrow>
          if e = AbortError then \<lparr>chat_messages = ms, isLoading = False\<rparr>
          else \<lparr>chat_messages = ms @ [fallback], isLoading = False\<rparr>
      | Waiting \<Rightarrow> \<lparr>chat_messages = ms, isLoading = True\<rparr>)"

text \<open>
  What \<^verbatim>\<open>await fetch(...)\<close> of line 97 leads to: a rejection; a response that is not
  \<^verbatim>\<open>ok\<close>, with its status and what \<^verbatim>\<open>await response.json()\<close> yields (a rejection or the
  error data); a response without a body; or a body, as the successive results of its
  reader.
\<close>

datatype fetch_result =
    FetchRejected js_error
  | NotOk nat "js_error + json"
  | NoBody
  | Body "read_result list"

text \<open>Lines 108-111: what is thrown for a response that is not \<^verbatim>\<open>ok\<close>.\<close>

definition not_ok_error :: "nat \<Rightarrow> js_error + json \<Rightarrow> js_error" where
  "not_ok_error status r =
     (case r of
        Inl e \<Rightarrow> e
      | Inr errorData \<Rightarrow>
          if errorData = JNull then TypeError
          else
            (case get_prop errorData ''error'' of
               None \<Rightarrow> Error (JStr (''HTTP error! status: '' @ string_of_nat status))
             | Some v \<Rightarrow>
                 if truthy (Some v) then Error v
                 else Error (JStr (''HTTP error! status: '' @ string_of_nat status))))"

text \<open>
  \<^verbatim>\<open>handleSend\<close>, lines 80-177, on the component's state. A blank input returns at once.
  Otherwise the user message is appended, the request is made, and on a body the empty
  assistant message is appended (line 119) before the loop. (The \<^verbatim>\<open>abort()\<close> of line 85
  acts on the request of an earlier invocation: there it shows as a rejected
  \<^verbatim>\<open>fetch\<close> or \<^verbatim>\<open>read\<close>.) The result is \<open>None\<close> when a state updater throws.
\<close>

definition handleSend ::
  "(string \<Rightarrow> json option) \<Rightarrow> (json \<Rightarrow> string) \<Rightarrow> string \<Rightarrow> fetch_result \<Rightarrow> chat \<Rightarrow> chat option"
where
  "handleSend parse toString input fr st =
     (if blank input then Some st
      else
        (let ms = chat_messages st @ [\<lparr>role = User, content = input\<rparr>] in
         case fr of
           FetchRejected e \<Rightarrow> Some (finish (Threw e) ms)
         | NotOk status r \<Rightarrow> Some (finish (Threw (not_ok_error status r)) ms)
         | NoBody \<Rightarrow> Some (finish (Threw (Error (JStr ''No response body''))) ms)
         | Body reads \<Rightarrow>
             (case readLoop parse toString reads (ms @ [\<lparr>role = Assistant, content = []\<rparr>]) of
                None \<Rightarrow> None
              | Some (r, ms') \<Rightarrow> Some (finish r ms'))))"

section \<open>Vocabulary of the properties\<close>

text \<open>What an event adds to the engine's input stream, and to its output.\<close>

definition writes_of :: "event \<Rightarrow> string list" where
  "writes_of ev = (case ev of Call fen depth \<Rightarrow> engine_commands fen depth | _ \<Rightarrow> [])"

definition stdout_of :: "event \<Rightarrow> string" where
  "stdout_of ev = (case ev of StdoutData output \<Rightarrow> output | _ \<Rightarrow> [])"

text \<open>
  What a sequence of events settles a pending promise with, for a call that has
  accumulated \<open>acc\<close> so far: the first chunk of output that contains the sentinel
  resolves it with everything accumulated up to and including that chunk; a process error
  before that rejects it; otherwise it stays pending.
\<close>

fun outcome :: "string \<Rightarrow> event list \<Rightarrow> string settle" where
  "outcome acc [] = Pending"
| "outcome acc (StdoutData output # evs) =
     (if includes_str output ''bestmove'' then Resolved (acc @ output)
      else outcome (acc @ output) evs)"
| "outcome acc (ProcessError e # evs) = Rejected e"
| "outcome acc (Call fen depth # evs) = outcome acc evs"
| "outcome acc (StderrData d # evs) = outcome acc evs"

text \<open>
  A listener after a sequence of events: it has accumulated all the output of the
  sequence, and its promise, if it was pending, is settled as above.
\<close>

definition listener_after :: "event list \<Rightarrow> listener \<Rightarrow> listener" where
  "listener_after evs l =
     \<lparr>analysis = analysis l @ concat (map stdout_of evs),
      promise = (if promise l = Pending then outcome (analysis l) evs else promise l)\<rparr>"

text \<open>
  The listeners of the calls in a sequence of events, in call order, as they are at the
  end of the sequence: each starts empty and pending at its call and sees the events
  after it.
\<close>

fun registered :: "event list \<Rightarrow> listener list" where
  "registered [] = []"
| "registered (Call fen depth # evs) =
     listener_after evs \<lparr>analysis = [], promise = Pending\<rparr> # registered evs"
| "registered (StdoutData output # evs) = registered evs"
| "registered (StderrData d # evs) = registered evs"
| "registered (ProcessError e # evs) = registered evs"

text \<open>
  The kinds of provider chunk: one that carries a text delta (and the delta it carries),
  an explicit error chunk, and a fatal one: a chunk that does not parse, the value
  \<^verbatim>\<open>null\<close>, or an error chunk.
\<close>

definition delta_of :: "(string \<Rightarrow> json option) \<Rightarrow> string \<Rightarrow> json option" where
  "delta_of parse text =
     (case parse text of
        None \<Rightarrow> None
      | Some data \<Rightarrow>
          if data \<noteq> JNull \<and> get_prop data ''type'' = Some (JStr ''content_block_delta'')
             \<and> truthy (opt_prop (get_prop data ''delta'') ''text'')
          then opt_prop (get_prop data ''delta'') ''text'' else None)"

definition error_chunk :: "(string \<Rightarrow> json option) \<Rightarrow> string \<Rightarrow> bool" where
  "error_chunk parse text =
     (case parse text of
        None \<Rightarrow> False
      | Some data \<Rightarrow> data \<noteq> JNull \<and> get_prop data ''type'' = Some (JStr ''error''))"

definition fatal :: "(string \<Rightarrow> json option) \<Rightarrow> string \<Rightarrow> bool" where
  "fatal parse text = (parse text = None \<or> parse text = Some JNull \<or> error_chunk parse text)"

text \<open>The event frames of a sequence of chunks: one for each text delta, in order.\<close>

definition frames_of ::
  "(string \<Rightarrow> json option) \<Rightarrow> (json \<Rightarrow> string) \<Rightarrow> string list \<Rightarrow> string list"
where
  "frames_of parse stringify chunks =
     concat (map (\<lambda>text. case delta_of parse text of
                           None \<Rightarrow> []
                         | Some t \<Rightarrow> [sseMessage stringify t])
               chunks)"

text \<open>
  A conversation has grown into another: all messages but the last are the same, and the
  last has the same role and a content that starts with the former content.
\<close>

definition grown :: "message list \<Rightarrow> message list \<Rightarrow> bool" where
  "grown ms ms' =
     (ms \<noteq> [] \<and> ms' \<noteq> [] \<and> butlast ms' = butlast ms \<and> role (last ms') = role (last ms) \<and>
      startsWith (content (last ms')) (content (last ms)))"

section \<open>Example inputs\<close>

text \<open>
  A conversation of three stored messages (system, user, assistant), the initial position,
  and an environment in which that position loads, both models have a key, the engine
  answers every analysis and the provider accepts every call.
\<close>

definition start_fen :: string where
  "start_fen = ''rnbqkbnr/pppppppp/8/8/8/8/PPPPPPPP/RNBQKBNR w KQkq - 0 1''"

definition h0 :: heap where
  "h0 = (\<lambda>r. if r = 0 then \<lparr>role = System, content = ''You are a helpful chess coach.''\<rparr>
             else if r = 1 then \<lparr>role = User, content = ''What is best here?''\<rparr>
             else \<lparr>role = Assistant, content = ''e4''\<rparr>)"

definition E0 :: env where
  "E0 = \<lparr>chess_load = (\<lambda>p. p = start_fen), hardcoded_key = ''key-1'', GEMINI_API_KEY = Some ''key-2'',
         engine_reply = (\<lambda>p. Resolved ''info depth 20 bestmove e2e4''), provider_create = (\<lambda>p. None)\<rparr>"

text \<open>
  Provider chunks as the SDK's stream hands them over (one event as JSON text and a line
  break): a text delta, an explicit error, a ping, and a text cut short. \<open>parse0\<close> and
  \<open>stringify0\<close> are \<^verbatim>\<open>JSON.parse\<close> and \<^verbatim>\<open>JSON.stringify\<close> at the texts and values of
  these examples; \<open>toString0\<close> is the conversion to a string at strings and objects.
\<close>

definition chunk_delta :: string where
  \<open>chunk_delta =
     ''{"type":"content_block_delta","index":0,"delta":{"type":"text_delta","text":"The "}}\<newline>''\<close>

definition chunk_error :: string where
  \<open>chunk_error =
     ''{"type":"error","error":{"type":"overloaded_error","message":"Overloaded"}}\<newline>''\<close>

definition chunk_ping :: string where
  \<open>chunk_ping = ''{"type":"ping"}\<newline>''\<close>

definition chunk_cut :: string where
  \<open>chunk_cut = ''{"type":"content_block_del''\<close>

definition frame_payload :: string where
  \<open>frame_payload = ''{"choices":[{"delta":{"content":"The "}}]}''\<close>

definition parse0 :: "string \<Rightarrow> json option" where
  "parse0 text =
     (if text = chunk_delta then
        Some (JObj [(''type'', JStr ''content_block_delta''), (''index'', JNum 0),
                    (''delta'', JObj [(''type'', JStr ''text_delta''), (''text'', JStr ''The '')])])
      else if text = chunk_error then
        Some (JObj [(''type'', JStr ''error''),
                    (''error'', JObj [(''type'', JStr ''overloaded_error''),
                                      (''message'', JStr ''Overloaded'')])])
      else if text = chunk_ping then Some (JObj [(''type'', JStr ''ping'')])
      else if text = frame_payload then Some (sseData (JStr ''The ''))
      else None)"

definition stringify0 :: "json \<Rightarrow> string" where
  "stringify0 v = (if v = sseData (JStr ''The '') then frame_payload else ''null'')"

definition toString0 :: "json \<Rightarrow> string" where
  "toString0 v = (case v of JStr s \<Rightarrow> s | _ \<Rightarrow> ''[object Object]'')"

text \<open>The client's conversation before a question is sent, and the frame of the text delta.\<close>

definition chat0 :: chat where
  "chat0 = \<lparr>chat_messages = [\<lparr>role = System, content = ''You are a helpful chess coach.''\<rparr>],
            isLoading = False\<rparr>"

definition frame0 :: string where
  "frame0 = ''data: '' @ frame_payload @ ''\<newline>\<newline>''"

section \<open>Properties of prompt augmentation and of the endpoint\<close>

lemma findLast_None: "findLast p xs = None \<longleftrightarrow> (\<forall>x\<in>set xs. \<not> p x)"
  by (auto simp: findLast_def find_None_iff)

lemma findLast_append: "p u \<Longrightarrow> \<forall>x\<in>set after. \<not> p x \<Longrightarrow> findLast p (before @ u # after) = Some u"
  by (induction after rule: rev_induct) (auto simp: findLast_def)

lemma augment_no_user:
  "\<forall>m\<in>set msgs. role (h m) \<noteq> User \<Longrightarrow> augment msgs pos a h = h"
  by (simp add: augment_def findLast_None[THEN iffD2])

lemma augment_last_user:
  "role (h u) = User \<Longrightarrow> \<forall>m\<in>set after. role (h m) \<noteq> User \<Longrightarrow>
   augment (before @ u # after) pos a h = h(u := (h u)\<lparr>content := augmented_content pos a (content (h u))\<rparr>)"
  by (simp add: augment_def findLast_append[where p="\<lambda>m. role (h m) = User"])

lemma role_augment: "role (augment msgs pos a h r) = role (h r)"
  by (auto simp: augment_def split: option.splits)

lemma augment_other:
  "findLast (\<lambda>m. role (h m) = User) msgs \<noteq> Some r \<Longrightarrow> augment msgs pos a h r = h r"
  by (auto simp: augment_def split: option.splits)

lemma augment_last:
  "findLast (\<lambda>m. role (h m) = User) msgs = Some u \<Longrightarrow>
   content (augment msgs pos a h u) = augmented_content pos a (content (h u))"
  by (simp add: augment_def)

lemma string_of_nat_20: "string_of_nat 20 = ''20''"
  by code_simp

lemmas eval_POST = POST_def streamAnthropicResponse_def apiKey_for_def anthropicMessages_def
  augment_def findLast_def engine_commands_def string_of_nat_20 E0_def h0_def start_fen_def Let_def

lemma stream_effects:
  "ProviderCreate p \<in> set (fst (snd (streamAnthropicResponse E msgs pos k h))) \<Longrightarrow>
   \<exists>a. engine_reply E pos = Resolved a \<and>
       p = \<lparr>cp_apiKey = k, cp_model = ''claude-sonnet-4-20250514'', cp_max_tokens = 4096,
            cp_messages = anthropicMessages msgs (augment msgs pos a h), cp_stream = True\<rparr> \<and>
       snd (snd (streamAnthropicResponse E msgs pos k h)) = augment msgs pos a h"
  by (auto simp: streamAnthropicResponse_def Let_def split: settle.splits option.splits)

lemma POST_effects:
  "ProviderCreate p \<in> set (fst (snd (POST E (Some body) h))) \<Longrightarrow>
   ProviderCreate p \<in> set (fst (snd (streamAnthropicResponse E (messages body) (position body) (apiKey_for E (model body)) h)))
   \<and> snd (snd (POST E (Some body) h)) = snd (snd (streamAnthropicResponse E (messages body) (position body) (apiKey_for E (model body)) h))
   \<and> chess_load E (position body) \<and> apiKey_for E (model body) \<noteq> []"
  by (auto simp: POST_def Let_def split: if_splits prod.splits option.splits sum.splits)

lemma stream_heap:
  "snd (snd (streamAnthropicResponse E msgs pos k h)) = h \<or>
   (\<exists>a. engine_reply E pos = Resolved a \<and>
        snd (snd (streamAnthropicResponse E msgs pos k h)) = augment msgs pos a h)"
  by (auto simp: streamAnthropicResponse_def Let_def split: settle.splits option.splits)

lemma POST_heap:
  "snd (snd (POST E (Some body) h)) = h \<or>
   (\<exists>a. engine_reply E (position body) = Resolved a \<and>
        snd (snd (POST E (Some body) h)) = augment (messages body) (position body) a h)"
proof (cases "chess_load E (position body) \<and> apiKey_for E (model body) \<noteq> []")
  case False
  then show ?thesis by (auto simp: POST_def Let_def)
next
  case True
  then have "snd (snd (POST E (Some body) h)) =
    snd (snd (streamAnthropicResponse E (messages body) (position body) (apiKey_for E (model body)) h))"
    by (auto simp: POST_def Let_def split: prod.splits option.splits sum.splits)
  then show ?thesis using stream_heap[of E "messages body" "position body" "apiKey_for E (model body)" h]
    by simp
qed

lemma POST_same_key:
  "messages body' = messages body \<Longrightarrow> position body' = position body \<Longrightarrow>
   apiKey_for E (model body') = apiKey_for E (model body) \<Longrightarrow>
   POST E (Some body') h = POST E (Some body) h"
  by (simp add: POST_def Let_def cong: if_cong)

lemma stream_calls_provider:
  "engine_reply E pos = Resolved a \<Longrightarrow>
   ProviderCreate \<lparr>cp_apiKey = k, cp_model = ''claude-sonnet-4-20250514'', cp_max_tokens = 4096,
      cp_messages = anthropicMessages msgs (augment msgs pos a h), cp_stream = True\<rparr>
     \<in> set (fst (snd (streamAnthropicResponse E msgs pos k h)))"
  by (simp add: streamAnthropicResponse_def Let_def split: option.splits)

lemma POST_effects_eq:
  "chess_load E (position body) \<Longrightarrow> apiKey_for E (model body) \<noteq> [] \<Longrightarrow>
   fst (snd (POST E (Some body) h)) =
   fst (snd (streamAnthropicResponse E (messages body) (position body) (apiKey_for E (model body)) h))"
  by (simp add: POST_def Let_def split: prod.splits option.splits sum.splits)

lemma POST_calls_provider:
  assumes "chess_load E (position body)" and "apiKey_for E (model body) \<noteq> []"
    and "engine_reply E (position body) = Resolved a"
  shows "\<exists>p. ProviderCreate p \<in> set (fst (snd (POST E (Some body) h)))"
  unfolding POST_effects_eq[OF assms(1,2)] using stream_calls_provider[OF assms(3)] by (rule exI)

lemma stream_params:
  "ProviderCreate p \<in> set (fst (snd (streamAnthropicResponse E msgs pos k h))) \<Longrightarrow>
   cp_model p = ''claude-sonnet-4-20250514'' \<and> cp_apiKey p = k"
  by (auto simp: streamAnthropicResponse_def Let_def split: settle.splits option.splits)

lemma POST_params:
  assumes "ProviderCreate p \<in> set (fst (snd (POST E (Some body) h)))"
  shows "cp_model p = ''claude-sonnet-4-20250514'' \<and> cp_apiKey p = apiKey_for E (model body)"
proof -
  from POST_effects[OF assms]
  have "ProviderCreate p \<in> set (fst (snd (streamAnthropicResponse E (messages body) (position body)
           (apiKey_for E (model body)) h)))" by (rule conjunct1)
  then show ?thesis by (rule stream_params)
qed

text \<open>
  Claim C4. When the conversation holds at least one user message, the augmentation
  rewrites the most recent one: the list splits at a user message \<open>u\<close> with no user message
  after it, the new content of \<open>u\<close> is the position, then the analysis, then the original
  content at the end, its role is unchanged, and every other stored message is unchanged.
\<close>

theorem augment_rewrites_last_user:
  assumes "\<exists>m\<in>set msgs. role (h m) = User"
  shows "\<exists>before u after.
           msgs = before @ u # after \<and> role (h u) = User \<and> (\<forall>m\<in>set after. role (h m) \<noteq> User) \<and>
           content (augment msgs pos a h u) =
             ''Chess position (FEN): '' @ pos @ ''\<newline>Stockfish analysis:\<newline>'' @ a
               @ ''\<newline>\<newline>User question: '' @ content (h u) \<and>
           role (augment msgs pos a h u) = User \<and>
           (\<forall>r. r \<noteq> u \<longrightarrow> augment msgs pos a h r = h r)"
proof -
  from assms obtain before u after where
    d: "msgs = before @ u # after" "role (h u) = User" "\<forall>m\<in>set after. role (h m) \<noteq> User"
    using split_list_last_prop[of msgs "\<lambda>m. role (h m) = User"] by blast
  have "augment msgs pos a h = h(u := (h u)\<lparr>content := augmented_content pos a (content (h u))\<rparr>)"
    using d augment_last_user by simp
  then show ?thesis
    using d
    by (intro exI[of _ before] exI[of _ u] exI[of _ after]) (simp add: augmented_content_def)
qed

text \<open>
  Claim C4, at the three-message conversation: the second message, the user's, is
  rewritten and ends with the question; the first and the third are as they were.
\<close>

theorem augment_rewrites_last_user_witness:
  "(\<exists>m\<in>set [0, 1, 2]. role (h0 m) = User) \<and>
   content (augment [0, 1, 2] ''fen'' ''bestmove e2e4'' h0 1)
     = ''Chess position (FEN): fen\<newline>Stockfish analysis:\<newline>bestmove e2e4\<newline>\<newline>User question: What is best here?'' \<and>
   role (augment [0, 1, 2] ''fen'' ''bestmove e2e4'' h0 1) = User \<and>
   augment [0, 1, 2] ''fen'' ''bestmove e2e4'' h0 0 = h0 0 \<and>
   augment [0, 1, 2] ''fen'' ''bestmove e2e4'' h0 2 = h0 2"
proof -
  have hyp: "\<exists>m\<in>set [0, 1, 2]. role (h0 m) = User" by (simp add: h0_def)
  from augment_rewrites_last_user[OF hyp, of "''fen''" "''bestmove e2e4''"]
  obtain before u after where
    d: "[0, 1, 2] = before @ u # after" "role (h0 u) = User"
    and c: "content (augment [0, 1, 2] ''fen'' ''bestmove e2e4'' h0 u) =
             ''Chess position (FEN): '' @ ''fen'' @ ''\<newline>Stockfish analysis:\<newline>'' @ ''bestmove e2e4''
               @ ''\<newline>\<newline>User question: '' @ content (h0 u)"
    and r: "role (augment [0, 1, 2] ''fen'' ''bestmove e2e4'' h0 u) = User"
    and o: "\<forall>r. r \<noteq> u \<longrightarrow> augment [0, 1, 2] ''fen'' ''bestmove e2e4'' h0 r = h0 r"
    by blast
  have "u \<in> set [0, 1, 2]" using d(1) by (metis in_set_conv_decomp)
  then have u: "u = 1" using d(2) by (auto simp: h0_def)
  have q: "content (h0 1) = ''What is best here?''" by (simp add: h0_def)
  have 1: "content (augment [0, 1, 2] ''fen'' ''bestmove e2e4'' h0 1)
     = ''Chess position (FEN): fen\<newline>Stockfish analysis:\<newline>bestmove e2e4\<newline>\<newline>User question: What is best here?''"
    using c[unfolded u q] by simp
  have 2: "role (augment [0, 1, 2] ''fen'' ''bestmove e2e4'' h0 1) = User"
    using r[unfolded u] .
  have 3: "augment [0, 1, 2] ''fen'' ''bestmove e2e4'' h0 0 = h0 0"
    using o[unfolded u] by simp
  have 4: "augment [0, 1, 2] ''fen'' ''bestmove e2e4'' h0 2 = h0 2"
    using o[unfolded u] by simp
  show ?thesis using hyp 1 2 3 4 by blast
qed


text \<open>
  Claim C5, as stated, fails: for a conversation of a system and an assistant message (no
  user message) the handler raises nothing, writes the engine commands, calls the provider
  with the assistant message and returns the event stream.
\<close>

theorem no_user_turn_counterexample:
  "POST E0 (Some \<lparr>messages = [0, 2], position = start_fen, model = ''claude-sonnet-4-20250514''\<rparr>) h0
     = (Some (StreamResponse \<lparr>cp_apiKey = ''key-1'', cp_model = ''claude-sonnet-4-20250514'',
                cp_max_tokens = 4096, cp_messages = [\<lparr>role = Assistant, content = ''e4''\<rparr>], cp_stream = True\<rparr>),
        [EngineWrite (''position fen '' @ start_fen @ ''\<newline>''), EngineWrite ''go depth 20\<newline>'',
         ProviderCreate \<lparr>cp_apiKey = ''key-1'', cp_model = ''claude-sonnet-4-20250514'',
                cp_max_tokens = 4096, cp_messages = [\<lparr>role = Assistant, content = ''e4''\<rparr>], cp_stream = True\<rparr>],
        h0)"
  by (simp add: eval_POST)

text \<open>
  Claim C5, amended. Without a user message the augmentation changes nothing, and once
  the analysis is available \<^verbatim>\<open>streamAnthropicResponse\<close> goes on to the provider call with
  the conversation as it was, system messages filtered out.
\<close>

theorem no_user_turn_is_noop:
  assumes "\<forall>m\<in>set msgs. role (h m) \<noteq> User" and "engine_reply E pos = Resolved a"
  shows "augment msgs pos a h = h \<and>
         (\<exists>out. streamAnthropicResponse E msgs pos apiKey h =
            (out,
             map EngineWrite (engine_commands pos 20) @
               [ProviderCreate \<lparr>cp_apiKey = apiKey, cp_model = ''claude-sonnet-4-20250514'',
                  cp_max_tokens = 4096, cp_messages = anthropicMessages msgs h, cp_stream = True\<rparr>],
             h))"
  using assms by (auto simp: streamAnthropicResponse_def augment_no_user Let_def split: option.splits)

text \<open>Claim C5, amended, at the conversation without a user message.\<close>

theorem no_user_turn_is_noop_witness:
  "list_all (\<lambda>m. role (h0 m) \<noteq> User) [0, 2] \<and>
   engine_reply E0 start_fen = Resolved ''info depth 20 bestmove e2e4'' \<and>
   augment [0, 2] start_fen ''info depth 20 bestmove e2e4'' h0 = h0 \<and>
   (\<exists>out. streamAnthropicResponse E0 [0, 2] start_fen ''key-1'' h0 =
      (out,
       map EngineWrite (engine_commands start_fen 20) @
         [ProviderCreate \<lparr>cp_apiKey = ''key-1'', cp_model = ''claude-sonnet-4-20250514'',
            cp_max_tokens = 4096, cp_messages = anthropicMessages [0, 2] h0, cp_stream = True\<rparr>],
       h0))"
proof -
  have a: "\<forall>m\<in>set [0, 2]. role (h0 m) \<noteq> User" by (simp add: h0_def)
  have b: "engine_reply E0 start_fen = Resolved ''info depth 20 bestmove e2e4''"
    by (simp add: E0_def)
  have c: "list_all (\<lambda>m. role (h0 m) \<noteq> User) [0, 2]" by (simp add: h0_def)
  show ?thesis using b c no_user_turn_is_noop[OF a b, of "''key-1''"] by blast
qed

text \<open>
  Claim C6. A request whose position does not load is answered with status 400 and the
  body \<^verbatim>\<open>{ error: 'Invalid chess position' }\<close>; nothing is written to the engine, no
  provider call is made, and the store is untouched.
\<close>

theorem invalid_position_rejected:
  assumes "\<not> chess_load E (position body)"
  shows "POST E (Some body) h = (Some (JsonResponse 400 ''Invalid chess position''), [], h)"
  using assms by (simp add: POST_def)

text \<open>Claim C6, at a request whose position is not the one the example environment loads.\<close>

theorem invalid_position_rejected_witness:
  "\<not> chess_load E0 (position \<lparr>messages = [0, 1], position = ''not a fen'', model = ''claude-sonnet-4-20250514''\<rparr>) \<and>
   POST E0 (Some \<lparr>messages = [0, 1], position = ''not a fen'', model = ''claude-sonnet-4-20250514''\<rparr>) h0
     = (Some (JsonResponse 400 ''Invalid chess position''), [], h0)"
proof -
  have a: "\<not> chess_load E0 (position \<lparr>messages = [0, 1], position = ''not a fen'', model = ''claude-sonnet-4-20250514''\<rparr>)"
    by (simp add: E0_def start_fen_def)
  show ?thesis using a invalid_position_rejected[OF a, of h0] by simp
qed

text \<open>
  Claim C7. The messages of every provider call of a request hold no system message, and
  they are the non-system messages of the request in their order (an assistant message
  stays one, any other becomes a user message), with the content they have after
  augmentation.
\<close>

theorem provider_messages_without_system:
  assumes "ProviderCreate p \<in> set (fst (snd (POST E (Some body) h)))"
  shows "(\<forall>m\<in>set (cp_messages p). role m \<noteq> System) \<and>
         cp_messages p =
           map (\<lambda>r. \<lparr>role = (if role (h r) = Assistant then Assistant else User),
                     content = content (snd (snd (POST E (Some body) h)) r)\<rparr>)
             (filter (\<lambda>r. role (h r) \<noteq> System) (messages body))"
proof -
  from POST_effects[OF assms] stream_effects obtain a where
    p: "cp_messages p = anthropicMessages (messages body) (augment (messages body) (position body) a h)"
    and h': "snd (snd (POST E (Some body) h)) = augment (messages body) (position body) a h"
    by (metis create_params.select_convs(4))
  show ?thesis unfolding p h' by (auto simp: anthropicMessages_def role_augment)
qed

text \<open>Claim C7, at the three-message conversation: the system message is not sent.\<close>

theorem provider_messages_without_system_witness:
  "ProviderCreate \<lparr>cp_apiKey = ''key-1'', cp_model = ''claude-sonnet-4-20250514'', cp_max_tokens = 4096,
      cp_messages =
        [\<lparr>role = User,
          content = augmented_content start_fen ''info depth 20 bestmove e2e4'' ''What is best here?''\<rparr>,
         \<lparr>role = Assistant, content = ''e4''\<rparr>],
      cp_stream = True\<rparr>
     \<in> set (fst (snd (POST E0 (Some \<lparr>messages = [0, 1, 2], position = start_fen,
                                     model = ''claude-sonnet-4-20250514''\<rparr>) h0))) \<and>
   list_all (\<lambda>m. role m \<noteq> System)
     [\<lparr>role = User,
       content = augmented_content start_fen ''info depth 20 bestmove e2e4'' ''What is best here?''\<rparr>,
      \<lparr>role = Assistant, content = ''e4''\<rparr>]"
proof -
  let ?p = "\<lparr>cp_apiKey = ''key-1'', cp_model = ''claude-sonnet-4-20250514'', cp_max_tokens = 4096,
      cp_messages =
        [\<lparr>role = User,
          content = augmented_content start_fen ''info depth 20 bestmove e2e4'' ''What is best here?''\<rparr>,
         \<lparr>role = Assistant, content = ''e4''\<rparr>],
      cp_stream = True\<rparr>"
  let ?b = "\<lparr>messages = [0, 1, 2], position = start_fen, model = ''claude-sonnet-4-20250514''\<rparr>"
  have a: "ProviderCreate ?p \<in> set (fst (snd (POST E0 (Some ?b) h0)))"
    by (simp add: eval_POST augmented_content_def)
  from provider_messages_without_system[OF a]
  have "\<forall>m\<in>set (cp_messages ?p). role m \<noteq> System" by (rule conjunct1)
  then have "list_all (\<lambda>m. role m \<noteq> System) (cp_messages ?p)" by (simp only: list_all_iff)
  then show ?thesis using a by simp
qed



text \<open>
  Claim C8, as stated, fails: after the request is processed, the second message of the
  request (its user message) has another content than before.
\<close>

theorem request_messages_mutated_counterexample:
  "content (snd (snd (POST E0 (Some \<lparr>messages = [0, 1], position = start_fen,
                                     model = ''claude-sonnet-4-20250514''\<rparr>) h0)) 1)
     = ''Chess position (FEN): '' @ start_fen @ ''\<newline>Stockfish analysis:\<newline>info depth 20 bestmove e2e4''
         @ ''\<newline>\<newline>User question: What is best here?'' \<and>
   content (h0 1) = ''What is best here?'' \<and>
   snd (snd (POST E0 (Some \<lparr>messages = [0, 1], position = start_fen,
                            model = ''claude-sonnet-4-20250514''\<rparr>) h0)) 1 \<noteq> h0 1"
  by (simp add: eval_POST augmented_content_def)

lemma POST_heap_resolved:
  assumes "chess_load E (position body)" and "apiKey_for E (model body) \<noteq> []"
    and "engine_reply E (position body) = Resolved a"
  shows "snd (snd (POST E (Some body) h)) = augment (messages body) (position body) a h"
  using assms
  by (simp add: POST_def streamAnthropicResponse_def Let_def split: option.splits)

lemma POST_heap_unchanged:
  assumes "\<not> (chess_load E (position body) \<and> apiKey_for E (model body) \<noteq> [] \<and>
              (\<exists>a. engine_reply E (position body) = Resolved a))"
  shows "snd (snd (POST E (Some body) h)) = h"
proof (cases "chess_load E (position body) \<and> apiKey_for E (model body) \<noteq> []")
  case False
  then show ?thesis by (auto simp: POST_def Let_def)
next
  case True
  with assms have "\<forall>a. engine_reply E (position body) \<noteq> Resolved a" by blast
  then show ?thesis using True
    by (cases "engine_reply E (position body)")
       (simp_all add: POST_def streamAnthropicResponse_def Let_def)
qed

text \<open>
  Claim C8, amended. Processing a request leaves every role and every stored message
  other than the most recent user message of the request unchanged. When the request
  passes the position and key checks and the analysis is available, the content of the
  most recent user message is overwritten in place with the augmented text; in every
  other case the store is left as it was.
\<close>

theorem request_changed_only_at_last_user:
  "(\<forall>r. role (snd (snd (POST E (Some body) h)) r) = role (h r)) \<and>
   (\<forall>r. findLast (\<lambda>m. role (h m) = User) (messages body) \<noteq> Some r \<longrightarrow>
        snd (snd (POST E (Some body) h)) r = h r) \<and>
   (\<forall>u a. chess_load E (position body) \<and> apiKey_for E (model body) \<noteq> [] \<and>
          engine_reply E (position body) = Resolved a \<and>
          findLast (\<lambda>m. role (h m) = User) (messages body) = Some u \<longrightarrow>
          content (snd (snd (POST E (Some body) h)) u) =
            ''Chess position (FEN): '' @ position body @ ''\<newline>Stockfish analysis:\<newline>'' @ a
              @ ''\<newline>\<newline>User question: '' @ content (h u)) \<and>
   (\<not> (chess_load E (position body) \<and> apiKey_for E (model body) \<noteq> [] \<and>
        (\<exists>a. engine_reply E (position body) = Resolved a)) \<longrightarrow>
      snd (snd (POST E (Some body) h)) = h)"
proof (intro conjI allI impI)
  fix r
  show "role (snd (snd (POST E (Some body) h)) r) = role (h r)"
    using POST_heap[of E body h] by (auto simp: role_augment)
  show "snd (snd (POST E (Some body) h)) r = h r"
    if "findLast (\<lambda>m. role (h m) = User) (messages body) \<noteq> Some r"
    using POST_heap[of E body h] that by (auto simp: augment_other)
next
  fix u a
  assume a: "chess_load E (position body) \<and> apiKey_for E (model body) \<noteq> [] \<and>
          engine_reply E (position body) = Resolved a \<and>
          findLast (\<lambda>m. role (h m) = User) (messages body) = Some u"
  then have "snd (snd (POST E (Some body) h)) = augment (messages body) (position body) a h"
    by (simp add: POST_heap_resolved)
  then show "content (snd (snd (POST E (Some body) h)) u) =
            ''Chess position (FEN): '' @ position body @ ''\<newline>Stockfish analysis:\<newline>'' @ a
              @ ''\<newline>\<newline>User question: '' @ content (h u)"
    using a by (simp add: augment_last augmented_content_def)
next
  assume "\<not> (chess_load E (position body) \<and> apiKey_for E (model body) \<noteq> [] \<and>
        (\<exists>a. engine_reply E (position body) = Resolved a))"
  then show "snd (snd (POST E (Some body) h)) = h" by (rule POST_heap_unchanged)
qed

text \<open>
  Claim C8, amended, at the three-message conversation: the user message, the second, is
  overwritten with the augmented text and the assistant message after it is as it was;
  for a position that does not load nothing is changed.
\<close>

theorem request_changed_only_at_last_user_witness:
  "content (snd (snd (POST E0 (Some \<lparr>messages = [0, 1, 2], position = start_fen,
                                     model = ''claude-sonnet-4-20250514''\<rparr>) h0)) 1)
     = ''Chess position (FEN): '' @ start_fen
         @ ''\<newline>Stockfish analysis:\<newline>info depth 20 bestmove e2e4\<newline>\<newline>User question: What is best here?'' \<and>
   snd (snd (POST E0 (Some \<lparr>messages = [0, 1, 2], position = start_fen,
                            model = ''claude-sonnet-4-20250514''\<rparr>) h0)) 2 = h0 2 \<and>
   snd (snd (POST E0 (Some \<lparr>messages = [0, 1, 2], position = ''not a fen'',
                            model = ''claude-sonnet-4-20250514''\<rparr>) h0)) = h0"
proof -
  let ?b = "\<lparr>messages = [0, 1, 2], position = start_fen, model = ''claude-sonnet-4-20250514''\<rparr>"
  let ?bad = "\<lparr>messages = [0, 1, 2], position = ''not a fen'', model = ''claude-sonnet-4-20250514''\<rparr>"
  have n2: "findLast (\<lambda>m. role (h0 m) = User) (messages ?b) \<noteq> Some 2"
    and u1: "findLast (\<lambda>m. role (h0 m) = User) (messages ?b) = Some 1"
    by (simp_all add: findLast_def h0_def)
  have ok: "chess_load E0 (position ?b)" "apiKey_for E0 (model ?b) \<noteq> []"
    "engine_reply E0 (position ?b) = Resolved ''info depth 20 bestmove e2e4''"
    by (simp_all add: E0_def apiKey_for_def)
  have bad: "\<not> (chess_load E0 (position ?bad) \<and> apiKey_for E0 (model ?bad) \<noteq> [] \<and>
        (\<exists>a. engine_reply E0 (position ?bad) = Resolved a))"
    by (simp add: E0_def start_fen_def)
  have q: "content (h0 1) = ''What is best here?''" by (simp add: h0_def)
  note T = request_changed_only_at_last_user[of E0 ?b h0]
  have "content (snd (snd (POST E0 (Some ?b) h0)) 1) =
            ''Chess position (FEN): '' @ position ?b @ ''\<newline>Stockfish analysis:\<newline>''
              @ ''info depth 20 bestmove e2e4'' @ ''\<newline>\<newline>User question: '' @ content (h0 1)"
    using T ok u1 by blast
  then have 1: "content (snd (snd (POST E0 (Some ?b) h0)) 1)
     = ''Chess position (FEN): '' @ start_fen
         @ ''\<newline>Stockfish analysis:\<newline>info depth 20 bestmove e2e4\<newline>\<newline>User question: What is best here?''"
    unfolding q by simp
  have 2: "snd (snd (POST E0 (Some ?b) h0)) 2 = h0 2" using T n2 by blast
  have 3: "snd (snd (POST E0 (Some ?bad) h0)) = h0"
    using request_changed_only_at_last_user[of E0 ?bad h0] bad by blast
  show ?thesis using 1 2 3 by blast
qed

text \<open>
  Claim C10. For a request that passes the position check and has a key, every provider
  call made uses the model identifier \<^verbatim>\<open>claude-sonnet-4-20250514\<close> and the key resolved from
  the request's model; a call is made whenever the analysis is available; and two
  requests with the same messages and position whose models resolve to the same key are
  processed identically.
\<close>

theorem provider_model_fixed:
  assumes "chess_load E (position body)" and "apiKey_for E (model body) \<noteq> []"
  shows "(\<forall>p. ProviderCreate p \<in> set (fst (snd (POST E (Some body) h))) \<longrightarrow>
              cp_model p = ''claude-sonnet-4-20250514'' \<and> cp_apiKey p = apiKey_for E (model body)) \<and>
         (\<forall>a. engine_reply E (position body) = Resolved a \<longrightarrow>
              (\<exists>p. ProviderCreate p \<in> set (fst (snd (POST E (Some body) h))))) \<and>
         (\<forall>body'. messages body' = messages body \<and> position body' = position body \<and>
                  apiKey_for E (model body') = apiKey_for E (model body) \<longrightarrow>
                  POST E (Some body') h = POST E (Some body) h)"
proof (intro conjI allI impI)
  fix p assume "ProviderCreate p \<in> set (fst (snd (POST E (Some body) h)))"
  then show "cp_model p = ''claude-sonnet-4-20250514''" and "cp_apiKey p = apiKey_for E (model body)"
    by (simp_all add: POST_params[of p E body h])
next
  fix a assume "engine_reply E (position body) = Resolved a"
  with assms show "\<exists>p. ProviderCreate p \<in> set (fst (snd (POST E (Some body) h)))"
    by (rule POST_calls_provider)
next
  fix body' :: ChatRequest
  assume "messages body' = messages body \<and> position body' = position body \<and>
          apiKey_for E (model body') = apiKey_for E (model body)"
  then show "POST E (Some body') h = POST E (Some body) h" by (intro POST_same_key) simp_all
qed

text \<open>
  Claim C10, at a request that selects \<^verbatim>\<open>gemini-2.5-pro\<close>: the call carries the other
  model's identifier and the key of the selected one.
\<close>

theorem provider_model_fixed_witness:
  "chess_load E0 (position \<lparr>messages = [0, 1], position = start_fen, model = ''gemini-2.5-pro''\<rparr>) \<and>
   apiKey_for E0 (model \<lparr>messages = [0, 1], position = start_fen, model = ''gemini-2.5-pro''\<rparr>) \<noteq> [] \<and>
   (\<exists>p. ProviderCreate p \<in> set (fst (snd (POST E0 (Some \<lparr>messages = [0, 1], position = start_fen,
                                  model = ''gemini-2.5-pro''\<rparr>) h0))) \<and>
        cp_model p = ''claude-sonnet-4-20250514'' \<and> cp_apiKey p = ''key-2'')"
proof -
  let ?b = "\<lparr>messages = [0, 1], position = start_fen, model = ''gemini-2.5-pro''\<rparr>"
  have a: "chess_load E0 (position ?b)" by (simp add: E0_def)
  have b: "apiKey_for E0 (model ?b) \<noteq> []" by (simp add: apiKey_for_def E0_def)
  have k: "apiKey_for E0 (model ?b) = ''key-2''" by (simp add: apiKey_for_def E0_def)
  have r: "engine_reply E0 (position ?b) = Resolved ''info depth 20 bestmove e2e4''"
    by (simp add: E0_def)
  show ?thesis using a b r provider_model_fixed[OF a b, of h0] unfolding k by blast
qed

section \<open>Properties of the engine session\<close>

lemma run_Nil: "run [] s = s"
  by (simp add: run_def)

lemma run_Cons: "run (ev # evs) s = run evs (step s ev)"
  by (simp add: run_def)

lemma stdin_run: "stdin (run evs s) = stdin s @ concat (map writes_of evs)"
proof (induction evs arbitrary: s)
  case Nil
  show ?case by (simp add: run_Nil)
next
  case (Cons ev evs)
  have "stdin (step s ev) = stdin s @ writes_of ev"
    by (cases ev) (simp_all add: writes_of_def getStockfishAnalysis_def)
  then show ?case by (simp add: run_Cons Cons.IH)
qed

lemmas eval_engine = run_def spawn_def getStockfishAnalysis_def engine_commands_def on_data_def
  on_error_def startsWith_def string_of_nat_20 Let_def

text \<open>
  Claim C1, as stated, fails. Two calls are made one after the other before the engine has
  produced any output: the commands of the second are on the input stream while the
  promise of the first is still pending. The one chunk of output that follows, with the
  sentinel, is accumulated by both calls and resolves both with the same text.
\<close>

theorem concurrent_calls_counterexample:
  "stdin (run [Call ''fenA'' 20, Call ''fenB'' 20] spawn)
     = [''position fen fenA\<newline>'', ''go depth 20\<newline>'',
        ''position fen fenB\<newline>'', ''go depth 20\<newline>''] \<and>
   map promise (listeners (run [Call ''fenA'' 20, Call ''fenB'' 20] spawn)) = [Pending, Pending] \<and>
   listeners (run [Call ''fenA'' 20, Call ''fenB'' 20,
                   StdoutData ''info depth 20 score cp 31\<newline>bestmove e2e4\<newline>''] spawn)
     = [\<lparr>analysis = ''info depth 20 score cp 31\<newline>bestmove e2e4\<newline>'',
         promise = Resolved ''info depth 20 score cp 31\<newline>bestmove e2e4\<newline>''\<rparr>,
        \<lparr>analysis = ''info depth 20 score cp 31\<newline>bestmove e2e4\<newline>'',
         promise = Resolved ''info depth 20 score cp 31\<newline>bestmove e2e4\<newline>''\<rparr>]"
  by (simp add: eval_engine)

lemma listener_after_Nil: "listener_after [] l = l"
  by (cases l) (simp add: listener_after_def)

lemma listener_after_Call: "listener_after (Call fen depth # evs) l = listener_after evs l"
  by (simp add: listener_after_def stdout_of_def)

lemma listener_after_Stderr: "listener_after (StderrData d # evs) l = listener_after evs l"
  by (simp add: listener_after_def stdout_of_def)

lemma listener_after_Stdout:
  "listener_after (StdoutData output # evs) l = listener_after evs (on_data output l)"
  by (simp add: listener_after_def stdout_of_def on_data_def Let_def)

lemma listener_after_Error:
  "listener_after (ProcessError e # evs) l = listener_after evs (on_error e l)"
  by (simp add: listener_after_def stdout_of_def on_error_def)

lemma listeners_run:
  "listeners (run evs s) = map (listener_after evs) (listeners s) @ registered evs"
proof (induction evs arbitrary: s)
  case Nil
  show ?case by (simp add: run_Nil listener_after_Nil)
next
  case (Cons ev evs)
  show ?case
  proof (cases ev)
    case (Call fen depth)
    then show ?thesis
      by (simp add: run_Cons Cons.IH getStockfishAnalysis_def listener_after_Call)
  next
    case (StdoutData out)
    then show ?thesis
      by (simp add: run_Cons Cons.IH listener_after_Stdout comp_def)
  next
    case (StderrData d)
    then show ?thesis
      by (simp add: run_Cons Cons.IH listener_after_Stderr)
  next
    case (ProcessError e)
    then show ?thesis
      by (simp add: run_Cons Cons.IH listener_after_Error comp_def)
  qed
qed

text \<open>
  Claim C1, amended. Calls are not serialized. Whatever the events, the input stream of
  the engine is what it was followed by the two commands of every call, in call order and
  at once (no output is waited for). Every call registers a listener, and the listeners
  are those there were followed by one for each call, in call order; each has accumulated
  every chunk of output that arrived after its call, whichever call the output answers,
  and its promise is resolved by the first such chunk that contains the sentinel, with
  all it has accumulated by then, unless a process error rejected it before.
\<close>

theorem calls_write_at_once:
  "stdin (run evs s) = stdin s @ concat (map writes_of evs) \<and>
   listeners (run evs s) = map (listener_after evs) (listeners s) @ registered evs"
  using stdin_run listeners_run by blast

text \<open>
  Claim C1, amended, at two calls with a chunk of output between them and the sentinel
  after both: the four commands are written in call order; the first call resolves with
  both chunks, the second with the chunk that came after it.
\<close>

theorem calls_write_at_once_witness:
  "stdin (run [Call ''fenA'' 20, StdoutData ''info depth 1\<newline>'', Call ''fenB'' 20,
               StdoutData ''bestmove e2e4\<newline>''] spawn)
     = [''position fen fenA\<newline>'', ''go depth 20\<newline>'',
        ''position fen fenB\<newline>'', ''go depth 20\<newline>''] \<and>
   listeners (run [Call ''fenA'' 20, StdoutData ''info depth 1\<newline>'', Call ''fenB'' 20,
                   StdoutData ''bestmove e2e4\<newline>''] spawn)
     = [\<lparr>analysis = ''info depth 1\<newline>bestmove e2e4\<newline>'',
         promise = Resolved ''info depth 1\<newline>bestmove e2e4\<newline>''\<rparr>,
        \<lparr>analysis = ''bestmove e2e4\<newline>'', promise = Resolved ''bestmove e2e4\<newline>''\<rparr>]"
  using calls_write_at_once[of "[Call ''fenA'' 20, StdoutData ''info depth 1\<newline>'', Call ''fenB'' 20,
               StdoutData ''bestmove e2e4\<newline>'']" spawn]
  by (simp add: spawn_def writes_of_def stdout_of_def listener_after_def engine_commands_def
      string_of_nat_20 startsWith_def)

section \<open>Properties of the stream transcoder\<close>

lemma transform_fatal:
  "state c = Readable \<Longrightarrow> fatal P t \<Longrightarrow> \<exists>e. transform P S t c = c\<lparr>state := Errored e\<rparr>"
  by (auto simp: transform_def fatal_def error_chunk_def controller_error_def Let_def
      split: option.splits)

lemma transform_unparseable:
  "state c = Readable \<Longrightarrow> P t = None \<Longrightarrow> transform P S t c = c\<lparr>state := Errored SyntaxError\<rparr>"
  by (simp add: transform_def controller_error_def)

lemma transform_ok:
  "state c = Readable \<Longrightarrow> \<not> fatal P t \<Longrightarrow>
   transform P S t c = c\<lparr>enqueued := enqueued c @ frames_of P S [t]\<rparr>"
  by (auto simp: transform_def fatal_def error_chunk_def delta_of_def frames_of_def enqueue_def
      Let_def split: option.splits)

lemma transform_skip:
  "state c = Readable \<Longrightarrow> \<not> fatal P t \<Longrightarrow> delta_of P t = None \<Longrightarrow> transform P S t c = c"
  by (simp add: transform_ok frames_of_def)

lemma frames_of_append: "frames_of P S (xs @ ys) = frames_of P S xs @ frames_of P S ys"
  by (simp add: frames_of_def)

lemma pipe_ok:
  "state c = Readable \<Longrightarrow> \<forall>t\<in>set ts. \<not> fatal P t \<Longrightarrow>
   pipeThrough (transform P S) flush (ts @ rest) fin c
     = pipeThrough (transform P S) flush rest fin (c\<lparr>enqueued := enqueued c @ frames_of P S ts\<rparr>)"
proof (induction ts arbitrary: c)
  case Nil
  then show ?case by (simp add: frames_of_def)
next
  case (Cons t ts)
  have "frames_of P S (t # ts) = frames_of P S [t] @ frames_of P S ts"
    using frames_of_append[of P S "[t]" ts] by simp
  then show ?case using Cons by (simp add: transform_ok)
qed

lemma pipe_dead: "state c \<noteq> Readable \<Longrightarrow> pipeThrough tr fl xs fin c = c"
  by (cases xs; cases fin) (simp_all add: controller_error_def)

lemma flush_live:
  "state c = Readable \<Longrightarrow> flush c = c\<lparr>enqueued := enqueued c @ [DONE], state := Closed\<rparr>"
  by (simp add: flush_def enqueue_def terminate_def)

lemma stream_complete:
  assumes "\<forall>t\<in>set chunks. \<not> fatal P t"
  shows "transformStream P S chunks SourceClosed
           = \<lparr>enqueued = frames_of P S chunks @ [DONE], state = Closed\<rparr>"
  using pipe_ok[of "\<lparr>enqueued = [], state = Readable\<rparr>" chunks P S "[]" SourceClosed] assms
  by (simp add: transformStream_def flush_live)

lemma stream_until:
  assumes "\<forall>t\<in>set pre. \<not> fatal P t"
  shows "transformStream P S (pre @ bad # post) fin
           = pipeThrough (transform P S) flush post fin
               (transform P S bad \<lparr>enqueued = frames_of P S pre, state = Readable\<rparr>)"
  using pipe_ok[of "\<lparr>enqueued = [], state = Readable\<rparr>" pre P S "bad # post" fin] assms
  by (simp add: transformStream_def)

lemma stream_fatal:
  assumes "\<forall>t\<in>set pre. \<not> fatal P t" and "fatal P bad"
  shows "\<exists>e. transformStream P S (pre @ bad # post) fin
           = \<lparr>enqueued = frames_of P S pre, state = Errored e\<rparr>"
proof -
  let ?c = "\<lparr>enqueued = frames_of P S pre, state = Readable\<rparr>"
  obtain e where e: "transform P S bad ?c = ?c\<lparr>state := Errored e\<rparr>"
    using transform_fatal[of ?c P bad S] assms(2) by auto
  have "transformStream P S (pre @ bad # post) fin = ?c\<lparr>state := Errored e\<rparr>"
    by (simp add: stream_until[OF assms(1)] e pipe_dead)
  then show ?thesis by simp
qed

lemma stream_unparseable:
  assumes "\<forall>t\<in>set pre. \<not> fatal P t" and "P bad = None"
  shows "transformStream P S (pre @ bad # post) fin
           = \<lparr>enqueued = frames_of P S pre, state = Errored SyntaxError\<rparr>"
  by (simp add: stream_until[OF assms(1)] transform_unparseable assms(2) pipe_dead)

lemma sseMessage_DONE: "sseMessage S t = DONE \<longleftrightarrow> S (sseData t) = ''[DONE]''"
proof -
  have "S (sseData t) @ ''\<newline>\<newline>'' = ''[DONE]'' @ ''\<newline>\<newline>'' \<longleftrightarrow> S (sseData t) = ''[DONE]''"
    by (rule append_same_eq)
  then show ?thesis by (simp add: sseMessage_def DONE_def)
qed

lemma DONE_not_frame:
  assumes "\<forall>t. S (sseData t) \<noteq> ''[DONE]''"
  shows "DONE \<notin> set (frames_of P S chunks)"
proof
  assume "DONE \<in> set (frames_of P S chunks)"
  then obtain t where "DONE = sseMessage S t"
    by (auto simp: frames_of_def split: option.splits)
  then have "sseMessage S t = DONE" by (rule sym)
  then have "S (sseData t) = ''[DONE]''" by (simp only: sseMessage_DONE)
  with assms show False by simp
qed

lemmas eval_stream = transformStream_def transform_def flush_def enqueue_def controller_error_def
  terminate_def opt_prop_def sseMessage_def DONE_def parse0_def stringify0_def chunk_delta_def
  chunk_error_def chunk_ping_def chunk_cut_def frame_payload_def frame0_def sseData_def Let_def

lemmas eval_kinds = fatal_def error_chunk_def frames_of_def delta_of_def

text \<open>
  Claim C2, as stated, fails. A text delta followed by an explicit error chunk: the frame
  of the delta is enqueued, the stream is errored, and no termination frame is emitted.
\<close>

theorem error_chunk_counterexample:
  "transformStream parse0 stringify0 [chunk_delta, chunk_error] SourceClosed
     = \<lparr>enqueued = [frame0], state = Errored (Error (JStr ''Overloaded''))\<rparr> \<and>
   DONE \<notin> set (enqueued (transformStream parse0 stringify0 [chunk_delta, chunk_error] SourceClosed))"
  by (simp add: eval_stream)

text \<open>
  Claim C2, amended. When the provider's sequence ends with no fatal chunk in it, the
  output is the event frames of its text deltas followed by the termination frame, the
  stream is closed, and (\<^verbatim>\<open>JSON.stringify\<close> never yielding the text \<^verbatim>\<open>[DONE]\<close> for a frame's
  object) the termination frame occurs exactly once. When a fatal chunk follows, the
  stream is errored with the frames of the chunks before it and no termination frame is
  added, whatever comes after.
\<close>

theorem termination_frame_on_natural_end:
  assumes "\<forall>t\<in>set pre. \<not> fatal P t"
  shows "transformStream P S pre SourceClosed
           = \<lparr>enqueued = frames_of P S pre @ [DONE], state = Closed\<rparr> \<and>
         ((\<forall>t. S (sseData t) \<noteq> ''[DONE]'') \<longrightarrow>
            count_list (enqueued (transformStream P S pre SourceClosed)) DONE = 1) \<and>
         (fatal P bad \<longrightarrow>
            (\<exists>e. transformStream P S (pre @ bad # post) fin
                   = \<lparr>enqueued = frames_of P S pre, state = Errored e\<rparr>))"
proof (intro conjI impI)
  show c: "transformStream P S pre SourceClosed
           = \<lparr>enqueued = frames_of P S pre @ [DONE], state = Closed\<rparr>"
    using assms by (rule stream_complete)
  show "count_list (enqueued (transformStream P S pre SourceClosed)) DONE = 1"
    if "\<forall>t. S (sseData t) \<noteq> ''[DONE]''"
    using DONE_not_frame[OF that, of P pre] by (simp add: c count_list_0_iff)
  show "\<exists>e. transformStream P S (pre @ bad # post) fin
             = \<lparr>enqueued = frames_of P S pre, state = Errored e\<rparr>" if "fatal P bad"
    using assms that by (rule stream_fatal)
qed

text \<open>
  Claim C2, amended, at a ping and a text delta: the frame, then the termination frame,
  once; and with an error chunk and another delta after them: the frame only.
\<close>

theorem termination_frame_on_natural_end_witness:
  "list_all (\<lambda>t. \<not> fatal parse0 t) [chunk_ping, chunk_delta] \<and> fatal parse0 chunk_error \<and>
   transformStream parse0 stringify0 [chunk_ping, chunk_delta] SourceClosed
     = \<lparr>enqueued = [frame0, DONE], state = Closed\<rparr> \<and>
   count_list (enqueued (transformStream parse0 stringify0 [chunk_ping, chunk_delta] SourceClosed))
     DONE = 1 \<and>
   (\<exists>e. transformStream parse0 stringify0 [chunk_ping, chunk_delta, chunk_error, chunk_delta]
          SourceClosed
        = \<lparr>enqueued = [frame0], state = Errored e\<rparr>)"
proof -
  have a: "\<forall>t\<in>set [chunk_ping, chunk_delta]. \<not> fatal parse0 t"
    by (simp add: eval_kinds eval_stream)
  have a': "list_all (\<lambda>t. \<not> fatal parse0 t) [chunk_ping, chunk_delta]"
    using a by (simp only: list_all_iff)
  have b: "fatal parse0 chunk_error" by (simp add: eval_kinds eval_stream)
  have s: "\<forall>t. stringify0 (sseData t) \<noteq> ''[DONE]''"
    by (simp add: stringify0_def frame_payload_def)
  have f: "frames_of parse0 stringify0 [chunk_ping, chunk_delta] = [frame0]"
    by (simp add: eval_kinds eval_stream)
  note T = termination_frame_on_natural_end[OF a, of stringify0 chunk_error "[chunk_delta]" SourceClosed]
  have 1: "transformStream parse0 stringify0 [chunk_ping, chunk_delta] SourceClosed
             = \<lparr>enqueued = [frame0, DONE], state = Closed\<rparr>"
    using T by (simp add: f)
  have 2: "count_list (enqueued (transformStream parse0 stringify0 [chunk_ping, chunk_delta]
             SourceClosed)) DONE = 1"
    using T s by blast
  have 3: "\<exists>e. transformStream parse0 stringify0 [chunk_ping, chunk_delta, chunk_error, chunk_delta]
                 SourceClosed
               = \<lparr>enqueued = [frame0], state = Errored e\<rparr>"
    using T b by (simp add: f)
  show ?thesis using a' b 1 2 3 by blast
qed

text \<open>
  Claim C3, as stated, fails. A chunk cut short does not parse; the text delta that follows
  it is not transcoded: nothing is enqueued and the stream is errored with the parse
  error.
\<close>

theorem malformed_chunk_counterexample:
  "parse0 chunk_cut = None \<and>
   transformStream parse0 stringify0 [chunk_cut, chunk_delta] SourceClosed
     = \<lparr>enqueued = [], state = Errored SyntaxError\<rparr>"
  by (simp add: eval_stream)

lemma transform_same_iff:
  assumes "state (c::controller) = Readable"
  shows "transform P S t c = c \<longleftrightarrow> \<not> fatal P t \<and> delta_of P t = None"
proof (cases "fatal P t")
  case True
  from transform_fatal[OF assms True, of S] obtain e where
    "transform P S t c = c\<lparr>state := Errored e\<rparr>" by blast
  then have "state (transform P S t c) \<noteq> state c" using assms by simp
  then have "transform P S t c \<noteq> c" by auto
  with True show ?thesis by simp
next
  case False
  show ?thesis
  proof (cases "delta_of P t")
    case None
    with False assms show ?thesis by (simp add: transform_skip)
  next
    case (Some v)
    have "enqueued (transform P S t c) = enqueued c @ [sseMessage S v]"
      using assms False Some by (simp add: transform_ok frames_of_def)
    then have "enqueued (transform P S t c) \<noteq> enqueued c" by simp
    then have "transform P S t c \<noteq> c" by auto
    with False Some show ?thesis by simp
  qed
qed

lemma pipe_skip:
  assumes "\<not> fatal P t" and "delta_of P t = None"
  shows "pipeThrough (transform P S) flush (xs @ t # ys) fin c
           = pipeThrough (transform P S) flush (xs @ ys) fin c"
proof (induction xs arbitrary: c)
  case Nil
  show ?case
  proof (cases "state c = Readable")
    case True
    then show ?thesis using assms by (simp add: transform_skip)
  next
    case False
    then show ?thesis by (simp add: pipe_dead)
  qed
next
  case (Cons x xs)
  then show ?case by simp
qed

text \<open>
  Claim C3, amended. A chunk that cannot be parsed is fatal to the stream: it is errored
  with the parse error, keeping the frames of the chunks before, and nothing that follows
  is transcoded. A chunk is skipped, the live stream being left exactly as it is, if and
  only if it parses to a value other than \<^verbatim>\<open>null\<close> that is neither a text delta nor an
  error chunk; and after such a chunk transcoding continues: the stream is the one of the
  sequence without it.
\<close>

theorem unparseable_chunk_errors_stream:
  assumes "\<forall>t\<in>set pre. \<not> fatal P t" and "P bad = None"
  shows "transformStream P S (pre @ bad # post) fin
           = \<lparr>enqueued = frames_of P S pre, state = Errored SyntaxError\<rparr> \<and>
         (\<forall>t (c::controller). state c = Readable \<longrightarrow>
            (transform P S t c = c) =
              ((\<exists>d. P t = Some d \<and> d \<noteq> JNull) \<and> delta_of P t = None \<and> \<not> error_chunk P t)) \<and>
         (\<forall>t xs ys.
            (\<exists>d. P t = Some d \<and> d \<noteq> JNull) \<and> delta_of P t = None \<and> \<not> error_chunk P t \<longrightarrow>
            transformStream P S (xs @ t # ys) fin = transformStream P S (xs @ ys) fin)"
proof (intro conjI allI impI)
  show "transformStream P S (pre @ bad # post) fin
           = \<lparr>enqueued = frames_of P S pre, state = Errored SyntaxError\<rparr>"
    using assms by (rule stream_unparseable)
next
  fix t and c :: controller assume "state c = Readable"
  then have "(transform P S t c = c) = (\<not> fatal P t \<and> delta_of P t = None)"
    by (rule transform_same_iff)
  also have "\<dots> = ((\<exists>d. P t = Some d \<and> d \<noteq> JNull) \<and> delta_of P t = None \<and> \<not> error_chunk P t)"
    by (cases "P t") (auto simp: fatal_def)
  finally show "(transform P S t c = c) =
      ((\<exists>d. P t = Some d \<and> d \<noteq> JNull) \<and> delta_of P t = None \<and> \<not> error_chunk P t)" .
next
  fix t xs ys
  assume a: "(\<exists>d. P t = Some d \<and> d \<noteq> JNull) \<and> delta_of P t = None \<and> \<not> error_chunk P t"
  then have "\<not> fatal P t" by (auto simp: fatal_def)
  moreover from a have "delta_of P t = None" by simp
  ultimately show "transformStream P S (xs @ t # ys) fin = transformStream P S (xs @ ys) fin"
    unfolding transformStream_def by (rule pipe_skip)
qed

text \<open>
  Claim C3, amended, at a text delta, the chunk cut short and another text delta: the one
  frame, and the parse error. And at the ping, which parses to an object that is neither
  a delta nor an error: it leaves the stream as it is, and the stream of a ping and a delta
  is that of the delta alone; the delta is not skipped.
\<close>

theorem unparseable_chunk_errors_stream_witness:
  "list_all (\<lambda>t. \<not> fatal parse0 t) [chunk_delta] \<and> parse0 chunk_cut = None \<and>
   transformStream parse0 stringify0 [chunk_delta, chunk_cut, chunk_delta] SourceClosed
     = \<lparr>enqueued = [frame0], state = Errored SyntaxError\<rparr> \<and>
   transform parse0 stringify0 chunk_ping \<lparr>enqueued = [frame0], state = Readable\<rparr>
     = \<lparr>enqueued = [frame0], state = Readable\<rparr> \<and>
   transform parse0 stringify0 chunk_delta \<lparr>enqueued = [frame0], state = Readable\<rparr>
     \<noteq> \<lparr>enqueued = [frame0], state = Readable\<rparr> \<and>
   transformStream parse0 stringify0 [chunk_ping, chunk_delta] SourceClosed
     = transformStream parse0 stringify0 [chunk_delta] SourceClosed"
proof -
  let ?c = "\<lparr>enqueued = [frame0], state = Readable\<rparr>"
  have a: "\<forall>t\<in>set [chunk_delta]. \<not> fatal parse0 t" by (simp add: eval_kinds eval_stream)
  have a': "list_all (\<lambda>t. \<not> fatal parse0 t) [chunk_delta]" using a by (simp only: list_all_iff)
  have b: "parse0 chunk_cut = None" by (simp add: eval_stream)
  have p: "(\<exists>d. parse0 chunk_ping = Some d \<and> d \<noteq> JNull) \<and> delta_of parse0 chunk_ping = None
             \<and> \<not> error_chunk parse0 chunk_ping"
    by (simp add: eval_kinds eval_stream)
  have d: "delta_of parse0 chunk_delta \<noteq> None" by (simp add: eval_kinds eval_stream)
  have f: "frames_of parse0 stringify0 [chunk_delta] = [frame0]"
    by (simp add: eval_kinds eval_stream)
  note T = unparseable_chunk_errors_stream[OF a b, of stringify0 "[chunk_delta]" SourceClosed]
  have 1: "transformStream parse0 stringify0 [chunk_delta, chunk_cut, chunk_delta] SourceClosed
             = \<lparr>enqueued = [frame0], state = Errored SyntaxError\<rparr>"
    using T by (simp add: f)
  have live: "state ?c = Readable" by simp
  from T have skip: "\<forall>t (c::controller). state c = Readable \<longrightarrow>
            (transform parse0 stringify0 t c = c) =
              ((\<exists>d. parse0 t = Some d \<and> d \<noteq> JNull) \<and> delta_of parse0 t = None
                 \<and> \<not> error_chunk parse0 t)"
    by (rule conjunct2[THEN conjunct1])
  have 2: "transform parse0 stringify0 chunk_ping ?c = ?c"
    using skip[rule_format, OF live, of chunk_ping] p by simp
  have 3: "transform parse0 stringify0 chunk_delta ?c \<noteq> ?c"
    using skip[rule_format, OF live, of chunk_delta] d by simp
  have "transformStream parse0 stringify0 ([] @ chunk_ping # [chunk_delta]) SourceClosed
          = transformStream parse0 stringify0 ([] @ [chunk_delta]) SourceClosed"
    using T p by blast
  then have 4: "transformStream parse0 stringify0 [chunk_ping, chunk_delta] SourceClosed
                  = transformStream parse0 stringify0 [chunk_delta] SourceClosed"
    by simp
  show ?thesis using a' b 1 2 3 4 by blast
qed

section \<open>Properties of the client stream consumer\<close>

lemma grown_refl: "ms \<noteq> [] \<Longrightarrow> grown ms ms"
  by (simp add: grown_def startsWith_def)

lemma startsWith_trans: "startsWith b a \<Longrightarrow> startsWith c b \<Longrightarrow> startsWith c a"
  unfolding startsWith_def by (metis append_eq_conv_conj append.assoc append_take_drop_id)

lemma grown_trans: "grown a b \<Longrightarrow> grown b c \<Longrightarrow> grown a c"
  unfolding grown_def using startsWith_trans by auto

lemma grown_nonempty: "grown ms ms' \<Longrightarrow> ms' \<noteq> []"
  by (simp add: grown_def)

lemma appendToLast_grown:
  assumes "ms \<noteq> []"
  shows "\<exists>ms'. appendToLast t ms = Inr ms' \<and> grown ms ms'"
proof -
  from assms obtain before l where ms: "ms = before @ [l]" by (metis rev_exhaust)
  show ?thesis
    by (simp add: ms appendToLast_def grown_def startsWith_def)
qed

lemma processLine_grown:
  assumes "ms \<noteq> []"
  shows "\<exists>ms'. processLine P T line ms = Some ms' \<and> grown ms ms'"
proof (cases "\<exists>t. processLine P T line ms
                  = (case appendToLast t ms of Inl e \<Rightarrow> None | Inr ms' \<Rightarrow> Some ms')")
  case True
  then obtain t where
    t: "processLine P T line ms = (case appendToLast t ms of Inl e \<Rightarrow> None | Inr ms' \<Rightarrow> Some ms')"
    by blast
  from appendToLast_grown[OF assms, of t] obtain ms' where
    "appendToLast t ms = Inr ms'" "grown ms ms'" by blast
  then show ?thesis by (simp add: t)
next
  case False
  then have "processLine P T line ms = Some ms"
    by (auto simp: processLine_def Let_def split: option.splits if_splits)
  then show ?thesis using grown_refl[OF assms] by simp
qed

lemma processLines_grown:
  "ms \<noteq> [] \<Longrightarrow> \<exists>ms'. processLines P T ls ms = Some ms' \<and> grown ms ms'"
proof (induction ls arbitrary: ms)
  case Nil
  then show ?case by (simp add: grown_refl)
next
  case (Cons l ls)
  from processLine_grown[OF Cons.prems, of P T l] obtain m1 where
    m1: "processLine P T l ms = Some m1" "grown ms m1" by blast
  from Cons.IH[OF grown_nonempty[OF m1(2)]] obtain m2 where
    m2: "processLines P T ls m1 = Some m2" "grown m1 m2" by blast
  show ?case using m1 m2 grown_trans by (intro exI[of _ m2]) auto
qed

lemma processChunk_grown:
  "ms \<noteq> [] \<Longrightarrow> \<exists>ms'. processChunk P T chunk ms = Some ms' \<and> grown ms ms'"
  unfolding processChunk_def by (rule processLines_grown)

lemma readLoop_values:
  "ms \<noteq> [] \<Longrightarrow> \<exists>ms'. readLoop P T (map ReadValue cs) ms = Some (Waiting, ms') \<and> grown ms ms'"
proof (induction cs arbitrary: ms)
  case Nil
  then show ?case by (simp add: grown_refl)
next
  case (Cons c cs)
  from processChunk_grown[OF Cons.prems, of P T c] obtain m1 where
    m1: "processChunk P T c ms = Some m1" "grown ms m1" by blast
  from Cons.IH[OF grown_nonempty[OF m1(2)]] obtain m2 where
    m2: "readLoop P T (map ReadValue cs) m1 = Some (Waiting, m2)" "grown m1 m2" by blast
  show ?case using m1 m2 grown_trans by (intro exI[of _ m2]) auto
qed

lemma readLoop_append:
  "readLoop P T (map ReadValue cs) ms = Some (Waiting, ms') \<Longrightarrow>
   readLoop P T (map ReadValue cs @ rs) ms = readLoop P T rs ms'"
proof (induction cs arbitrary: ms)
  case Nil
  then show ?case by simp
next
  case (Cons c cs)
  then show ?case by (cases "processChunk P T c ms") simp_all
qed

lemmas eval_client = handleSend_def processChunk_def processLine_def appendToLast_def
  text_of_def finish_def blank_def is_space_def startsWith_def opt_prop_def opt_index0_def
  parse0_def chunk_delta_def chunk_error_def chunk_ping_def frame_payload_def frame0_def
  sseData_def chat0_def fallback_def Let_def

text \<open>
  Claim C9. Let chunks be read and then the read be rejected, whatever would have come
  after. While the consumer waits for the next chunk the conversation is the one the sent
  question and the empty assistant message have grown into by the deltas applied so far.
  If the rejection is a cancellation, exactly this conversation remains, and nothing is
  appended; any other rejection appends the fallback message to it.
\<close>

theorem cancel_keeps_applied_deltas:
  assumes "\<not> blank input"
  shows "\<exists>ms'. readLoop P T (map ReadValue cs)
                 (chat_messages st @ [\<lparr>role = User, content = input\<rparr>,
                                      \<lparr>role = Assistant, content = []\<rparr>])
               = Some (Waiting, ms') \<and>
           grown (chat_messages st @ [\<lparr>role = User, content = input\<rparr>,
                                      \<lparr>role = Assistant, content = []\<rparr>]) ms' \<and>
           handleSend P T input (Body (map ReadValue cs @ ReadRejected AbortError # rest)) st
             = Some \<lparr>chat_messages = ms', isLoading = False\<rparr> \<and>
           (\<forall>e. e \<noteq> AbortError \<longrightarrow>
              handleSend P T input (Body (map ReadValue cs @ ReadRejected e # rest)) st
                = Some \<lparr>chat_messages = ms' @ [fallback], isLoading = False\<rparr>)"
proof -
  let ?ms = "chat_messages st @ [\<lparr>role = User, content = input\<rparr>, \<lparr>role = Assistant, content = []\<rparr>]"
  have "?ms \<noteq> []" by simp
  from readLoop_values[OF this, of P T cs] obtain ms' where
    w: "readLoop P T (map ReadValue cs) ?ms = Some (Waiting, ms')" and g: "grown ?ms ms'" by blast
  have r: "readLoop P T (map ReadValue cs @ ReadRejected e # rest) ?ms = Some (Threw e, ms')" for e
    using readLoop_append[OF w, of "ReadRejected e # rest"] by simp
  show ?thesis
    using assms w g by (intro exI[of _ ms']) (simp add: handleSend_def finish_def r)
qed

text \<open>
  Claim C9, at one frame read before the rejection and one that would have followed: after
  a cancellation the assistant message holds the one delta and nothing is appended; after
  a failure of another kind the fallback message follows it.
\<close>

theorem cancel_keeps_applied_deltas_witness:
  "\<not> blank ''What is best here?'' \<and>
   handleSend parse0 toString0 ''What is best here?''
       (Body [ReadValue frame0, ReadRejected AbortError, ReadValue frame0]) chat0
     = Some \<lparr>chat_messages =
               [\<lparr>role = System, content = ''You are a helpful chess coach.''\<rparr>,
                \<lparr>role = User, content = ''What is best here?''\<rparr>,
                \<lparr>role = Assistant, content = ''The ''\<rparr>],
             isLoading = False\<rparr> \<and>
   handleSend parse0 toString0 ''What is best here?''
       (Body [ReadValue frame0, ReadRejected TypeError, ReadValue frame0]) chat0
     = Some \<lparr>chat_messages =
               [\<lparr>role = System, content = ''You are a helpful chess coach.''\<rparr>,
                \<lparr>role = User, content = ''What is best here?''\<rparr>,
                \<lparr>role = Assistant, content = ''The ''\<rparr>,
                fallback],
             isLoading = False\<rparr>"
proof -
  let ?q = "''What is best here?''"
  let ?after = "[\<lparr>role = System, content = ''You are a helpful chess coach.''\<rparr>,
                 \<lparr>role = User, content = ?q\<rparr>, \<lparr>role = Assistant, content = ''The ''\<rparr>]"
  have a: "\<not> blank ?q" by (simp add: blank_def is_space_def)
  have v: "readLoop parse0 toString0 (map ReadValue [frame0])
             (chat_messages chat0 @ [\<lparr>role = User, content = ?q\<rparr>, \<lparr>role = Assistant, content = []\<rparr>])
           = Some (Waiting, ?after)"
    by (simp add: eval_client)
  from cancel_keeps_applied_deltas[OF a, of parse0 toString0 "[frame0]" chat0 "[ReadValue frame0]"]
  obtain ms' where
    1: "readLoop parse0 toString0 (map ReadValue [frame0])
             (chat_messages chat0 @ [\<lparr>role = User, content = ?q\<rparr>, \<lparr>role = Assistant, content = []\<rparr>])
           = Some (Waiting, ms')"
    and 2: "handleSend parse0 toString0 ?q
              (Body (map ReadValue [frame0] @ ReadRejected AbortError # [ReadValue frame0])) chat0
            = Some \<lparr>chat_messages = ms', isLoading = False\<rparr>"
    and 3: "\<forall>e. e \<noteq> AbortError \<longrightarrow>
              handleSend parse0 toString0 ?q
                (Body (map ReadValue [frame0] @ ReadRejected e # [ReadValue frame0])) chat0
              = Some \<lparr>chat_messages = ms' @ [fallback], isLoading = False\<rparr>"
    by blast
  have ms': "ms' = ?after" using 1 v by simp
  have 4: "handleSend parse0 toString0 ?q
                (Body (map ReadValue [frame0] @ ReadRejected TypeError # [ReadValue frame0])) chat0
              = Some \<lparr>chat_messages = ms' @ [fallback], isLoading = False\<rparr>"
    using 3 by simp
  show ?thesis using a 2 4 unfolding ms' by simp
qed

end
